theory Spec2Isabelle
  imports Main "HOL-Library.Sublist"
begin

section \<open>Values and strings of the host language\<close>

text \<open>
  The generator is TypeScript. Strings are modelled as byte strings (\<open>string\<close>), a
  JavaScript value that the generator or the emitted helper inspects at run time as
  \<open>jsval\<close>. Numbers are the integer-valued ones (below \<open>10^21\<close> in magnitude, where
  \<open>String(n)\<close> is the decimal numeral); objects keep their entries in the order
  \<open>Object.entries\<close> yields them. Letter case is that of ASCII: \<open>toUpperCase\<close> and
  \<open>toLowerCase\<close> change the letters \<open>a\<close> to \<open>z\<close> and \<open>A\<close> to \<open>Z\<close> and leave every
  other byte as it is.
\<close>

datatype jsval =
    Undefined
  | Null
  | JBool bool
  | JNum int
  | JStr string
  | JArr "jsval list"
  | JObj "(string \<times> jsval) list"

text \<open>\<open>Array.prototype.join\<close> on an array of strings.\<close>

fun join :: "string \<Rightarrow> string list \<Rightarrow> string" where
  "join sep [] = []"
| "join sep [x] = x"
| "join sep (x # y # ys) = x @ sep @ join sep (y # ys)"

definition digitChar :: "nat \<Rightarrow> char" where
  "digitChar d = char_of (48 + d)"

fun showNat :: "nat \<Rightarrow> string" where
  "showNat n = (if n < 10 then [digitChar n] else showNat (n div 10) @ [digitChar (n mod 10)])"

definition showInt :: "int \<Rightarrow> string" where
  "showInt i = (if i < 0 then ''-'' @ showNat (nat (- i)) else showNat (nat i))"

text \<open>\<open>String(v)\<close>: an array prints its elements joined by commas, with \<open>undefined\<close>
  and \<open>null\<close> elements printed as the empty string; a plain object prints as
  \<open>[object Object]\<close>.\<close>

fun jsString :: "jsval \<Rightarrow> string" where
  "jsString Undefined = ''undefined''"
| "jsString Null = ''null''"
| "jsString (JBool b) = (if b then ''true'' else ''false'')"
| "jsString (JNum i) = showInt i"
| "jsString (JStr s) = s"
| "jsString (JArr items) =
     join '','' (map (\<lambda>v. if v = Undefined \<or> v = Null then [] else jsString v) items)"
| "jsString (JObj entries) = ''[object Object]''"

section \<open>The emitted query-parameter serializer (hooks.tpl.ts, serializeQueryHelper)\<close>

text \<open>
  \<open>URLSearchParams\<close> is an ordered list of name-value pairs; \<open>append\<close> adds a pair at
  the end and \<open>toString\<close> is the \<open>application/x-www-form-urlencoded\<close> serializer:
  alphanumerics and \<open>* - . _\<close> stay, a space becomes \<open>+\<close>, every other byte is
  percent-encoded with upper-case hexadecimal digits.
\<close>

type_synonym URLSearchParams = "(string \<times> string) list"

definition sp_append :: "URLSearchParams \<Rightarrow> string \<Rightarrow> string \<Rightarrow> URLSearchParams" where
  "sp_append sp name val = sp @ [(name, val)]"

definition isAlnum :: "char \<Rightarrow> bool" where
  "isAlnum c = (let n = (of_char c :: nat) in
     (48 \<le> n \<and> n \<le> 57) \<or> (65 \<le> n \<and> n \<le> 90) \<or> (97 \<le> n \<and> n \<le> 122))"

definition hexDigit :: "nat \<Rightarrow> char" where
  "hexDigit d = (if d < 10 then char_of (48 + d) else char_of (55 + d))"

definition urlencodeByte :: "char \<Rightarrow> string" where
  "urlencodeByte c =
     (if isAlnum c \<or> c = CHR ''*'' \<or> c = CHR ''-'' \<or> c = CHR ''.'' \<or> c = CHR ''_'' then [c]
      else if c = CHR '' '' then ''+''
      else [CHR ''%'', hexDigit ((of_char c :: nat) div 16), hexDigit ((of_char c :: nat) mod 16)])"

definition urlencode :: "string \<Rightarrow> string" where
  "urlencode s = concat (map urlencodeByte s)"

definition sp_toString :: "URLSearchParams \<Rightarrow> string" where
  "sp_toString sp = join ''&'' (map (\<lambda>(name, val). urlencode name @ ''='' @ urlencode val) sp)"

text \<open>The callback of \<open>Object.entries(input).forEach\<close>, threading the
  \<open>searchParams\<close> object it mutates.\<close>

definition forEachEntry :: "string \<times> jsval \<Rightarrow> URLSearchParams \<Rightarrow> URLSearchParams" where
  "forEachEntry entry searchParams =
     (case entry of (key, val) \<Rightarrow>
        if val = Undefined \<or> val = Null then searchParams
        else (case val of
                JArr items \<Rightarrow> fold (\<lambda>item sp. sp_append sp key (jsString item)) items searchParams
              | _ \<Rightarrow> sp_append searchParams key (jsString val)))"

text \<open>\<open>serializeQuery\<close>; the argument is \<open>None\<close> when the caller passes no
  mapping (\<open>!input\<close>), else the entries of the mapping.\<close>

definition serializeQuery :: "(string \<times> jsval) list option \<Rightarrow> string" where
  "serializeQuery input =
     (case input of
        None \<Rightarrow> []
      | Some entries \<Rightarrow>
          (let searchParams = fold forEachEntry entries [];
               qs = sp_toString searchParams
           in if qs \<noteq> [] then ''?'' @ qs else []))"

text \<open>The serialization policy in the specification's words: skip \<open>undefined\<close> and
  \<open>null\<close>, repeat the key for each element of an array in array order, stringify
  everything else; nothing to encode gives the empty string, anything else is prefixed
  with a question mark.\<close>

definition spec_pairs :: "string \<times> jsval \<Rightarrow> (string \<times> string) list" where
  "spec_pairs entry =
     (case entry of
        (key, Undefined) \<Rightarrow> []
      | (key, Null) \<Rightarrow> []
      | (key, JArr items) \<Rightarrow> map (\<lambda>item. (key, jsString item)) items
      | (key, val) \<Rightarrow> [(key, jsString val)])"

definition serializeQuery_spec :: "(string \<times> jsval) list option \<Rightarrow> string" where
  "serializeQuery_spec input =
     (case input of
        None \<Rightarrow> []
      | Some entries \<Rightarrow>
          (let pairs = concat (map spec_pairs entries)
           in if pairs = [] then []
              else ''?'' @ join ''&'' (map (\<lambda>(k, v). urlencode k @ ''='' @ urlencode v) pairs)))"

section \<open>The operation model (model.ts)\<close>

datatype HttpMethod = Get | Post | Put | Patch | Delete | Head

text \<open>The method as the string the source compares and prints.\<close>

fun methodName :: "HttpMethod \<Rightarrow> string" where
  "methodName Get = ''get''"
| "methodName Post = ''post''"
| "methodName Put = ''put''"
| "methodName Patch = ''patch''"
| "methodName Delete = ''delete''"
| "methodName Head = ''head''"

text \<open>A schema is an open-ended object (\<open>any\<close>); the generator reads its \<open>type\<close>
  and \<open>format\<close> and tests whether \<open>items\<close> is present.\<close>

record Schema =
  s_type :: "string option"
  s_format :: "string option"
  s_items :: bool

record Param =
  p_name :: string
  p_in :: string
  p_required :: bool
  p_schema :: "Schema option"
  p_type :: "string option"
  p_format :: "string option"

record RequestBody =
  rb_contentType :: string
  rb_schema :: "Schema option"
  rb_required :: bool

record Response =
  r_contentType :: "string option"
  r_schema :: "Schema option"
  r_description :: "string option"

text \<open>\<open>responses\<close> lists the entries of the record in \<open>Object.entries\<close> order; the four
  parameter views are optional in the type and always read as \<open>op.pathParams || []\<close>, so
  an absent view is the empty list.\<close>

record Op =
  op_tag :: string
  op_operationId :: string
  op_method :: HttpMethod
  op_path :: string
  op_summary :: "string option"
  op_description :: "string option"
  op_params :: "Param list"
  op_requestBody :: "RequestBody option"
  op_responses :: "(string \<times> Response) list"
  op_pathParams :: "Param list"
  op_queryParams :: "Param list"
  op_headerParams :: "Param list"
  op_cookieParams :: "Param list"

record SpecModel =
  sm_ops :: "Op list"
  sm_title :: "string option"
  sm_version :: "string option"
  sm_baseUrl :: "string option"

text \<open>\<open>Map<string, Op[]>\<close>: the entries in insertion order.\<close>

type_synonym ByTag = "(string \<times> Op list) list"

datatype error = TypeError | Failure string

section \<open>The case conversion of the change-case library\<close>

text \<open>
  \<open>camelCase\<close> comes from the third-party package change-case. The renderers and the
  loader below take it as the parameter \<open>cc\<close>. For concrete inputs the following
  function computes what the library computes on ASCII input: split at a
  lower-case letter or digit followed by an upper-case letter, split before the last
  letter of an upper-case run that is followed by a lower-case letter, split at every
  run of other characters, drop empty words, lower-case the first word, capitalise the
  others (a word after the first that starts with a digit gets an underscore in front)
  and concatenate.
\<close>

definition isUpper :: "char \<Rightarrow> bool" where
  "isUpper c = (65 \<le> (of_char c :: nat) \<and> (of_char c :: nat) \<le> 90)"

definition isLower :: "char \<Rightarrow> bool" where
  "isLower c = (97 \<le> (of_char c :: nat) \<and> (of_char c :: nat) \<le> 122)"

definition isDigit :: "char \<Rightarrow> bool" where
  "isDigit c = (48 \<le> (of_char c :: nat) \<and> (of_char c :: nat) \<le> 57)"

definition toLowerChar :: "char \<Rightarrow> char" where
  "toLowerChar c = (if isUpper c then char_of ((of_char c :: nat) + 32) else c)"

definition toUpperChar :: "char \<Rightarrow> char" where
  "toUpperChar c = (if isLower c then char_of ((of_char c :: nat) - 32) else c)"

definition toLowerCase :: "string \<Rightarrow> string" where
  "toLowerCase s = map toLowerChar s"

definition toUpperCase :: "string \<Rightarrow> string" where
  "toUpperCase s = map toUpperChar s"

fun splitLowerUpper :: "string \<Rightarrow> string" where
  "splitLowerUpper (a # b # rest) =
     (if (isLower a \<or> isDigit a) \<and> isUpper b then a # CHR 0x00 # b # splitLowerUpper rest
      else a # splitLowerUpper (b # rest))"
| "splitLowerUpper s = s"

fun splitUpperUpper :: "string \<Rightarrow> string" where
  "splitUpperUpper (a # b # c # rest) =
     (if isUpper a \<and> isUpper b \<and> isLower c then a # CHR 0x00 # b # c # splitUpperUpper rest
      else a # splitUpperUpper (b # c # rest))"
| "splitUpperUpper s = s"

text \<open>The words of a string: its maximal runs of letters and digits. \<open>cur\<close> is the
  word being read, reversed.\<close>

fun wordsAcc :: "string \<Rightarrow> string \<Rightarrow> string list" where
  "wordsAcc cur [] = (if cur = [] then [] else [rev cur])"
| "wordsAcc cur (c # cs) =
     (if isAlnum c then wordsAcc (c # cur) cs
      else if cur = [] then wordsAcc [] cs
      else rev cur # wordsAcc [] cs)"

definition splitWords :: "string \<Rightarrow> string list" where
  "splitWords s = wordsAcc [] (splitUpperUpper (splitLowerUpper s))"

definition pascalCaseTransform :: "string \<Rightarrow> string" where
  "pascalCaseTransform w =
     (case w of
        [] \<Rightarrow> []
      | c # cs \<Rightarrow> (if isDigit c then CHR ''_'' # c # toLowerCase cs
                  else toUpperChar c # toLowerCase cs))"

definition camelCase :: "string \<Rightarrow> string" where
  "camelCase s =
     (case splitWords s of
        [] \<Rightarrow> []
      | w # ws \<Rightarrow> toLowerCase w @ concat (map pascalCaseTransform ws))"

section \<open>The query-key renderer (queryKeys.tpl.ts)\<close>

abbreviation sq :: string where
  "sq \<equiv> [CHR 0x27]"

abbreviation bq :: string where
  "bq \<equiv> [CHR 0x60]"

text \<open>The line of one operation in the key factory: the function that builds the
  cache key from the parameters.\<close>

definition queryKeyLine :: "string \<Rightarrow> string \<Rightarrow> string" where
  "queryKeyLine root keyName =
     ''    '' @ keyName @ '': (params?: any) => ['' @ sq @ root @ sq @ '','' @ sq @ keyName @ sq @
     '', params ?? {}] as const''"

text \<open>The callback of the outer \<open>map\<close>: the block of one tag, with the \<open>root\<close> key
  and one line per operation of the tag.\<close>

definition queryKeysBlock :: "(string \<Rightarrow> string) \<Rightarrow> string \<times> Op list \<Rightarrow> string" where
  "queryKeysBlock cc = (\<lambda>(tag, ops).
     let root = cc tag;
         lines = join '',\<newline>''
           (map (\<lambda>op. let name = op_operationId op; keyName = cc name
                      in queryKeyLine root keyName) ops)
     in ''  '' @ root @ '': {\<newline>    root: ['' @ sq @ root @ sq @ ''] as const,\<newline>'' @
        lines @ ''\<newline>  }'')"

definition renderQueryKeys :: "(string \<Rightarrow> string) \<Rightarrow> ByTag \<Rightarrow> string" where
  "renderQueryKeys cc byTag =
     ''\<newline>// GENERATED FILE\<newline>export const queryKeys = {\<newline>'' @
     join '',\<newline>'' (map (queryKeysBlock cc) byTag) @
     ''\<newline>} as const;\<newline>''"

text \<open>What the emitted factory function returns at run time: the array literal
  \<open>['root','keyName', params ?? {}]\<close>, where \<open>??\<close> replaces \<open>undefined\<close> and
  \<open>null\<close> by the empty object.\<close>

definition nullish :: "jsval \<Rightarrow> jsval \<Rightarrow> jsval" where
  "nullish v d = (if v = Undefined \<or> v = Null then d else v)"


section \<open>The invalidation renderer (invalidate.tpl.ts)\<close>

definition invalidateLine :: "string \<Rightarrow> string \<Rightarrow> string" where
  "invalidateLine t name =
     ''    '' @ name @ '': (params?: any) => qc.invalidateQueries({ queryKey: queryKeys.'' @ t @
     ''.'' @ name @ ''(params) })''"

text \<open>The callback of the outer \<open>map\<close>: the block of one tag, with one line per
  operation of the tag that passes the filter on the method.\<close>

definition invalidateBlock :: "(string \<Rightarrow> string) \<Rightarrow> string \<times> Op list \<Rightarrow> string" where
  "invalidateBlock cc = (\<lambda>(tag, ops).
     let t = cc tag;
         entries = join '',\<newline>''
           (map (\<lambda>op. let name = cc (op_operationId op) in invalidateLine t name)
              (filter (\<lambda>op. op_method op = Get \<or> op_method op = Head) ops))
     in ''  '' @ t @ '': {\<newline>'' @ entries @ ''\<newline>  }'')"

definition renderInvalidate :: "(string \<Rightarrow> string) \<Rightarrow> ByTag \<Rightarrow> string" where
  "renderInvalidate cc byTag =
     ''\<newline>// GENERATED FILE\<newline>import { QueryClient } from '@tanstack/react-query';\<newline>'' @
     ''import { queryKeys } from './queryKeys.js';\<newline>\<newline>'' @
     ''export const invalidate = (qc: QueryClient) => ({\<newline>'' @
     join '',\<newline>'' (map (invalidateBlock cc) byTag) @
     ''\<newline>});\<newline>''"

section \<open>The hooks renderer (hooks.tpl.ts)\<close>

definition isQuery :: "HttpMethod \<Rightarrow> bool" where
  "isQuery m = (m = Get \<or> m = Head)"

definition serializeQueryHelper :: string where
  \<open>serializeQueryHelper =
     ''\<newline>const serializeQuery = (input?: Record<string, unknown>) => {\<newline>'' @
     ''  if (!input) return "";\<newline>\<newline>'' @
     ''  const searchParams = new URLSearchParams();\<newline>\<newline>'' @
     ''  Object.entries(input).forEach(([key, value]) => {\<newline>'' @
     ''    if (value === undefined || value === null) return;\<newline>\<newline>'' @
     ''    if (Array.isArray(value)) {\<newline>'' @
     ''      value.forEach((item) => searchParams.append(key, String(item)));\<newline>'' @
     ''      return;\<newline>'' @
     ''    }\<newline>\<newline>'' @
     ''    searchParams.append(key, String(value));\<newline>'' @
     ''  });\<newline>\<newline>'' @
     ''  const qs = searchParams.toString();\<newline>'' @
     ''  return qs ? '' @ bq @ ''?${qs}'' @ bq @ '' : "";\<newline>'' @
     ''};\<newline>''\<close>

definition buildHooksHeader :: "string \<Rightarrow> string" where
  "buildHooksHeader importBase =
     ''// GENERATED FILE\<newline>'' @
     ''import { useQuery, useMutation } from '@tanstack/react-query';\<newline>'' @
     ''import { createClient } from '' @ sq @ importBase @ ''client.js'' @ sq @ '';\<newline>'' @
     ''import { queryKeys } from '' @ sq @ importBase @ ''queryKeys.js'' @ sq @ '';\<newline>'' @
     ''import type { ApiError } from '' @ sq @ importBase @ ''client.js'' @ sq @ '';\<newline>\<newline>'' @
     ''const client = createClient();\<newline>'' @
     serializeQueryHelper @ ''\<newline>''"

definition getTypeScriptType :: "Param \<Rightarrow> string" where
  "getTypeScriptType param =
     (case p_schema param of
        None \<Rightarrow> ''string''
      | Some schema \<Rightarrow>
          if s_type schema = Some ''integer'' \<or> s_type schema = Some ''number'' then ''number''
          else if s_type schema = Some ''boolean'' then ''boolean''
          else if s_type schema = Some ''array'' then ''any[]''
          else if s_type schema = Some ''object'' then ''Record<string, any>''
          else ''string'')"

definition generateRequestBodyType :: "Op \<Rightarrow> string" where
  "generateRequestBodyType op = ''any''"

definition startsWith :: "string \<Rightarrow> string \<Rightarrow> bool" where
  "startsWith s pre = prefix pre s"

definition generateResponseType :: "Op \<Rightarrow> string" where
  "generateResponseType op =
     (case List.find (\<lambda>(code, res). startsWith code ''2'' \<and> r_schema res \<noteq> None) (op_responses op) of
        None \<Rightarrow> ''any''
      | Some successResponse \<Rightarrow>
          (case r_schema (snd successResponse) of
             None \<Rightarrow> ''any''
           | Some schema \<Rightarrow>
               if s_type schema = Some ''array'' \<and> s_items schema then ''any[]''
               else if s_type schema = Some ''object'' then ''Record<string, any>''
               else ''any''))"

definition generateParamsType :: "Op \<Rightarrow> bool \<Rightarrow> string \<Rightarrow> string" where
  "generateParamsType op includeBody bodyType =
     (let pathParams = op_pathParams op;
          queryParams = op_queryParams op;
          headerParams = op_headerParams op;
          pathType =
            (if length pathParams > 0
             then ''{ '' @ join ''; '' (map (\<lambda>p. p_name p @ '': '' @ getTypeScriptType p) pathParams) @ '' }''
             else ''Record<string, never>'');
          queryType =
            (if length queryParams > 0
             then ''{ '' @ join ''; ''
                    (map (\<lambda>p. p_name p @ (if p_required p then [] else ''?'') @ '': '' @ getTypeScriptType p)
                       queryParams) @ '' }''
             else ''Record<string, never>'');
          headerType =
            (if length headerParams > 0
             then ''{ '' @ join ''; ''
                    (map (\<lambda>p. p_name p @ (if p_required p then [] else ''?'') @ '': '' @ getTypeScriptType p)
                       headerParams) @ '' }''
             else ''Record<string, string>'');
          lines = [''  path?: '' @ pathType @ '';'',
                   ''  query?: '' @ queryType @ '';'',
                   ''  headers?: '' @ headerType @ '';''];
          lines' = (if includeBody then lines @ [''  body?: '' @ bodyType @ '';''] else lines)
      in ''{\<newline>'' @ join ''\<newline>'' lines' @ ''\<newline>}'')"

definition buildParamAccessor :: "string \<Rightarrow> string \<Rightarrow> string" where
  "buildParamAccessor base property =
     (let optionalBase = suffix ''?'' base;
          cleanBase = (if optionalBase then butlast base else base)
      in if sublist ''?.'' cleanBase \<or> optionalBase then cleanBase @ ''?.'' @ property
         else cleanBase @ ''.'' @ property)"

text \<open>\<open>path.replace(/{(\w+)}/g, f)\<close>: scanning from the left, a brace followed by a
  non-empty maximal run of word characters and a closing brace is replaced by what the
  callback returns for the run; every other character is copied. \<open>matchesAt c rest\<close>
  says that the pattern matches at the character \<open>c\<close> that \<open>rest\<close> follows.\<close>

definition isWordChar :: "char \<Rightarrow> bool" where
  "isWordChar c = (isAlnum c \<or> c = CHR ''_'')"

definition matchesAt :: "char \<Rightarrow> string \<Rightarrow> bool" where
  "matchesAt c rest \<longleftrightarrow>
     c = CHR ''{'' \<and> takeWhile isWordChar rest \<noteq> [] \<and>
     (case dropWhile isWordChar rest of [] \<Rightarrow> False | d # after \<Rightarrow> d = CHR ''}'')"

function replacePlaceholders :: "(string \<Rightarrow> string) \<Rightarrow> string \<Rightarrow> string" where
  "replacePlaceholders f [] = []"
| "replacePlaceholders f (c # rest) =
     (if matchesAt c rest
      then f (takeWhile isWordChar rest) @ replacePlaceholders f (tl (dropWhile isWordChar rest))
      else c # replacePlaceholders f rest)"
  by pat_completeness auto
termination
proof (relation "measure (\<lambda>(f, s). length s)")
  show "wf (measure (\<lambda>(f, s). length s))" by simp
next
  fix f :: "string \<Rightarrow> string" and c :: char and rest :: string
  have "length (tl (dropWhile isWordChar rest)) \<le> length rest"
    using length_dropWhile_le [of isWordChar rest] by simp
  then show "((f, tl (dropWhile isWordChar rest)), (f, c # rest)) \<in> measure (\<lambda>(f, s). length s)"
    by simp
next
  fix f :: "string \<Rightarrow> string" and c :: char and rest :: string
  show "((f, rest), (f, c # rest)) \<in> measure (\<lambda>(f, s). length s)" by simp
qed

text \<open>The callback of the replacement: what is substituted for the placeholder
  \<open>paramName\<close>.\<close>

definition placeholderReplacement :: "Param list \<Rightarrow> string \<Rightarrow> string \<Rightarrow> string" where
  "placeholderReplacement pathParams accessorBase paramName =
     (let param = List.find (\<lambda>p. p_name p = paramName) pathParams;
          accessor = buildParamAccessor accessorBase paramName
      in if (case param of None \<Rightarrow> False | Some p \<Rightarrow> p_required p)
         then ''${'' @ accessor @ ''}''
         else ''${'' @ accessor @ '' ?? '' @ sq @ sq @ ''}'')"

definition buildPathWithParams :: "string \<Rightarrow> Param list \<Rightarrow> string \<Rightarrow> string" where
  "buildPathWithParams path pathParams accessorBase =
     (if length pathParams = 0 then sq @ path @ sq
      else
        (let pathWithParams = replacePlaceholders (placeholderReplacement pathParams accessorBase) path
         in bq @ pathWithParams @ bq))"

text \<open>\<open>param?.required\<close> in the callback: whether the first path parameter declared
  under the name is required; false when none is declared.\<close>

definition declaredRequired :: "Param list \<Rightarrow> string \<Rightarrow> bool" where
  "declaredRequired pathParams paramName =
     (case List.find (\<lambda>p. p_name p = paramName) pathParams of
        None \<Rightarrow> False
      | Some p \<Rightarrow> p_required p)"

text \<open>
  The run-time value of the emitted template literal, read off its text (the text between
  the backquotes). \<open>lookup\<close> gives the value of an accessor expression in the scope of
  the call. A substitution \<open>${e}\<close> is replaced by \<open>String\<close> of the value of \<open>e\<close>, where
  \<open>e\<close> is an accessor or an accessor followed by \<open>?? ''\<close>; every other character stands
  for itself. These are the only expressions the renderer emits.
\<close>

definition evalExpr :: "(string \<Rightarrow> jsval) \<Rightarrow> string \<Rightarrow> string" where
  "evalExpr lookup expr =
     (if suffix ('' ?? '' @ sq @ sq) expr
      then jsString (nullish (lookup (take (length expr - 6) expr)) (JStr []))
      else jsString (lookup expr))"

function evalTemplate :: "(string \<Rightarrow> jsval) \<Rightarrow> string \<Rightarrow> string" where
  "evalTemplate lookup [] = []"
| "evalTemplate lookup [c] = [c]"
| "evalTemplate lookup (c # d # rest) =
     (if c = CHR ''$'' \<and> d = CHR ''{''
      then evalExpr lookup (takeWhile (\<lambda>x. x \<noteq> CHR ''}'') rest) @
           evalTemplate lookup (tl (dropWhile (\<lambda>x. x \<noteq> CHR ''}'') rest))
      else c # evalTemplate lookup (d # rest))"
  by pat_completeness auto
termination
proof (relation "measure (\<lambda>(l, s). length s)")
  show "wf (measure (\<lambda>(l, s). length s))" by simp
next
  fix l :: "string \<Rightarrow> jsval" and c d :: char and rest :: string
  have "length (tl (dropWhile (\<lambda>x. x \<noteq> CHR ''}'') rest)) \<le> length rest"
    using length_dropWhile_le [of "\<lambda>x. x \<noteq> CHR ''}''" rest] by simp
  then show "((l, tl (dropWhile (\<lambda>x. x \<noteq> CHR ''}'') rest)), (l, c # d # rest))
      \<in> measure (\<lambda>(l, s). length s)"
    by simp
next
  fix l :: "string \<Rightarrow> jsval" and c d :: char and rest :: string
  show "((l, d # rest), (l, c # d # rest)) \<in> measure (\<lambda>(l, s). length s)" by simp
qed

text \<open>\<open>fn[0].toUpperCase() + fn.slice(1)\<close>: indexing the empty string gives
  \<open>undefined\<close>, and calling a method on it throws a \<open>TypeError\<close>.\<close>

definition capitalizeFirst :: "string \<Rightarrow> error + string" where
  "capitalizeFirst fn = (case fn of [] \<Rightarrow> Inl TypeError | c # cs \<Rightarrow> Inr (toUpperChar c # cs))"

text \<open>The text of a query hook, as a function of the values the template interpolates:
  the capitalised name, the response type, the parameter type, the key factory, the
  request path expression and the upper-case method.\<close>

definition queryHookText :: "string \<Rightarrow> string \<Rightarrow> string \<Rightarrow> string \<Rightarrow> string \<Rightarrow> string \<Rightarrow> string" where
  "queryHookText Fn responseType paramTypes key requestPath method =
     ''\<newline>export const use'' @ Fn @ '' = <TData = '' @ responseType @ ''>(\<newline>'' @
     ''  params?: '' @ paramTypes @ '',\<newline>'' @
     ''  options?: {\<newline>'' @
     ''    enabled?: boolean;\<newline>'' @
     ''    staleTime?: number;\<newline>'' @
     ''    gcTime?: number;\<newline>'' @
     ''    retry?: boolean | number;\<newline>'' @
     ''    retryDelay?: number | ((retryCount: number) => number);\<newline>'' @
     ''    refetchOnWindowFocus?: boolean;\<newline>'' @
     ''    refetchOnMount?: boolean;\<newline>'' @
     ''    refetchOnReconnect?: boolean;\<newline>'' @
     ''  }\<newline>'' @
     '') =>\<newline>'' @
     ''  useQuery<TData, ApiError>({\<newline>'' @
     ''    queryKey: '' @ key @ ''(params?.query),\<newline>'' @
     ''    queryFn: async () => {\<newline>'' @
     ''      const requestPath = '' @ requestPath @ '';\<newline>'' @
     ''      const search = serializeQuery(params?.query);\<newline>'' @
     ''      return client.request<TData>('' @ sq @ method @ sq @ '', requestPath + search, {\<newline>'' @
     ''        headers: params?.headers ?? undefined,\<newline>'' @
     ''      });\<newline>'' @
     ''    },\<newline>'' @
     ''    ...options,\<newline>'' @
     ''  });\<newline>''"

definition renderQueryHook :: "(string \<Rightarrow> string) \<Rightarrow> string \<Rightarrow> Op \<Rightarrow> error + string" where
  "renderQueryHook cc tag op =
     (let fn = cc (op_operationId op);
          key = ''queryKeys.'' @ cc tag @ ''.'' @ fn;
          pathParams = op_pathParams op;
          paramTypes = generateParamsType op False ''never'';
          responseType = generateResponseType op
      in case capitalizeFirst fn of
           Inl e \<Rightarrow> Inl e
         | Inr Fn \<Rightarrow>
             Inr (queryHookText Fn responseType paramTypes key
                    (buildPathWithParams (op_path op) pathParams ''params?.path'')
                    (toUpperCase (methodName (op_method op)))))"

text \<open>The text of a mutation hook, likewise.\<close>

definition mutationHookText ::
    "string \<Rightarrow> string \<Rightarrow> string \<Rightarrow> string \<Rightarrow> string \<Rightarrow> string \<Rightarrow> string \<Rightarrow> string" where
  "mutationHookText Fn responseType variablesType destructured requestPath method bodyLine =
     ''\<newline>export const use'' @ Fn @ '' = <TData = '' @ responseType @ ''>(\<newline>'' @
     ''  options?: {\<newline>'' @
     ''    onSuccess?: (data: TData) => void;\<newline>'' @
     ''    onError?: (error: ApiError) => void;\<newline>'' @
     ''    retry?: boolean | number;\<newline>'' @
     ''    retryDelay?: number | ((retryCount: number) => number);\<newline>'' @
     ''  }\<newline>'' @
     '') =>\<newline>'' @
     ''  useMutation<TData, ApiError, '' @ variablesType @ ''>({\<newline>'' @
     ''    mutationFn: async ('' @ destructured @ '') => {\<newline>'' @
     ''      const requestPath = '' @ requestPath @ '';\<newline>'' @
     ''      const search = serializeQuery(query);\<newline>'' @
     ''      return client.request<TData>('' @ sq @ method @ sq @ '', requestPath + search, {\<newline>'' @
     bodyLine @ ''        headers: headers ? { ...headers } : undefined,\<newline>'' @
     ''      });\<newline>'' @
     ''    },\<newline>'' @
     ''    ...options,\<newline>'' @
     ''  });\<newline>''"

definition renderMutationHook :: "(string \<Rightarrow> string) \<Rightarrow> string \<Rightarrow> Op \<Rightarrow> error + string" where
  "renderMutationHook cc tag op =
     (let fn = cc (op_operationId op);
          key = ''queryKeys.'' @ cc tag @ ''.'' @ fn;
          pathParams = op_pathParams op;
          responseType = generateResponseType op;
          requestBodyType = generateRequestBodyType op;
          hasBody = (op_requestBody op \<noteq> None);
          variablesType = generateParamsType op hasBody requestBodyType;
          destructured = (if hasBody then ''{ path, query, headers, body }'' else ''{ path, query, headers }'');
          bodyLine = (if hasBody
                      then ''        body: body === undefined ? undefined : JSON.stringify(body),\<newline>''
                      else [])
      in case capitalizeFirst fn of
           Inl e \<Rightarrow> Inl e
         | Inr Fn \<Rightarrow>
             Inr (mutationHookText Fn responseType variablesType destructured
                    (buildPathWithParams (op_path op) pathParams ''path?'')
                    (toUpperCase (methodName (op_method op))) bodyLine))"

text \<open>\<open>Array.prototype.map\<close> with a callback that may throw: the first exception ends
  the traversal.\<close>

fun mapE :: "('a \<Rightarrow> error + 'b) \<Rightarrow> 'a list \<Rightarrow> error + 'b list" where
  "mapE f [] = Inr []"
| "mapE f (x # xs) =
     (case f x of
        Inl e \<Rightarrow> Inl e
      | Inr y \<Rightarrow> (case mapE f xs of Inl e \<Rightarrow> Inl e | Inr ys \<Rightarrow> Inr (y # ys)))"

definition renderTagHooks :: "(string \<Rightarrow> string) \<Rightarrow> string \<Rightarrow> Op list \<Rightarrow> error + string" where
  "renderTagHooks cc tag ops =
     (case mapE (\<lambda>op. if isQuery (op_method op) then renderQueryHook cc tag op
                      else renderMutationHook cc tag op) ops of
        Inl e \<Rightarrow> Inl e
      | Inr hooks \<Rightarrow> Inr (join ''\<newline>'' hooks))"

definition renderHooksTemplate :: "(string \<Rightarrow> string) \<Rightarrow> ByTag \<Rightarrow> string \<Rightarrow> error + string" where
  "renderHooksTemplate cc entries importBase =
     (case mapE (\<lambda>(tag, ops). renderTagHooks cc tag ops) entries of
        Inl e \<Rightarrow> Inl e
      | Inr rendered \<Rightarrow>
          (let hooksContent = join ''\<newline>'' (filter (\<lambda>t. t \<noteq> []) rendered)
           in Inr (buildHooksHeader importBase @ hooksContent)))"

definition renderHooksByTag :: "(string \<Rightarrow> string) \<Rightarrow> string \<Rightarrow> Op list \<Rightarrow> error + string" where
  "renderHooksByTag cc tag ops = renderHooksTemplate cc [(tag, ops)] ''../''"

definition renderHooksCombined :: "(string \<Rightarrow> string) \<Rightarrow> ByTag \<Rightarrow> error + string" where
  "renderHooksCombined cc byTag = renderHooksTemplate cc byTag ''./''"

section \<open>The spec loader (loaders/openapi.ts)\<close>

text \<open>
  The bundled document, as far as the loader reads it. An object is the list of its
  entries in \<open>Object.entries\<close> order; a property that may be absent is an option.
  \<open>doc_serverUrl\<close> is \<open>servers[0]?.url\<close> when \<open>servers\<close> is an array and the url a
  string.
\<close>

record RawMedia =
  m_schema :: "Schema option"

record RawParam =
  rp_name :: string
  rp_in :: string
  rp_required :: "bool option"
  rp_schema :: "Schema option"

record RawResponse =
  rr_content :: "(string \<times> RawMedia) list option"
  rr_description :: "string option"

record RawRequestBody =
  rq_content :: "(string \<times> RawMedia) list option"
  rq_required :: "bool option"

record RawOperation =
  ro_tags :: "string list option"
  ro_operationId :: "string option"
  ro_summary :: "string option"
  ro_description :: "string option"
  ro_parameters :: "RawParam list option"
  ro_responses :: "(string \<times> RawResponse) list option"
  ro_requestBody :: "RawRequestBody option"

record PathItem =
  pi_parameters :: "RawParam list option"
  pi_operation :: "HttpMethod \<Rightarrow> RawOperation option"

record Document =
  doc_paths :: "(string \<times> PathItem option) list option"
  doc_title :: "string option"
  doc_version :: "string option"
  doc_serverUrl :: "string option"

definition orElse :: "'a option \<Rightarrow> 'a \<Rightarrow> 'a" where
  "orElse v d = (case v of None \<Rightarrow> d | Some x \<Rightarrow> x)"

text \<open>\<open>(opObj.tags?.[0] ?? "default").toString()\<close>\<close>

definition tagOf :: "RawOperation \<Rightarrow> string" where
  "tagOf opObj =
     (case ro_tags opObj of
        None \<Rightarrow> ''default''
      | Some [] \<Rightarrow> ''default''
      | Some (t # others) \<Rightarrow> t)"

text \<open>\<open>(opObj.operationId ?? camelCase(`${method}_${p}`)).replace(/[{}]/g, "")\<close>\<close>

definition stripBraces :: "string \<Rightarrow> string" where
  "stripBraces s = filter (\<lambda>c. c \<noteq> CHR ''{'' \<and> c \<noteq> CHR ''}'') s"

definition operationIdOf :: "(string \<Rightarrow> string) \<Rightarrow> HttpMethod \<Rightarrow> string \<Rightarrow> RawOperation \<Rightarrow> string" where
  "operationIdOf cc method p opObj =
     stripBraces (orElse (ro_operationId opObj) (cc (methodName method @ ''_'' @ p)))"

definition toParam :: "RawParam \<Rightarrow> Param" where
  "toParam param =
     \<lparr>p_name = rp_name param,
      p_in = rp_in param,
      p_required = orElse (rp_required param) False,
      p_schema = rp_schema param,
      p_type = (case rp_schema param of None \<Rightarrow> None | Some s \<Rightarrow> s_type s),
      p_format = (case rp_schema param of None \<Rightarrow> None | Some s \<Rightarrow> s_format s)\<rparr>"

definition toResponse :: "RawResponse \<Rightarrow> Response" where
  "toResponse res =
     (let description = rr_description res
      in case rr_content res of
           Some content \<Rightarrow>
             (let first = (case content of [] \<Rightarrow> None | e # es \<Rightarrow> Some e)
              in \<lparr>r_contentType = (case first of
                                      None \<Rightarrow> None
                                    | Some (ct, media) \<Rightarrow> if length ct > 0 then Some ct else None),
                  r_schema = (case first of None \<Rightarrow> None | Some (ct, media) \<Rightarrow> m_schema media),
                  r_description = (if description \<noteq> None \<and> description \<noteq> Some [] then description else None)\<rparr>)
         | None \<Rightarrow>
             \<lparr>r_contentType = None, r_schema = None,
              r_description = (if description \<noteq> None \<and> description \<noteq> Some [] then description else None)\<rparr>)"

definition toRequestBody :: "RawRequestBody option \<Rightarrow> RequestBody option" where
  "toRequestBody rb =
     (case rb of
        None \<Rightarrow> None
      | Some body \<Rightarrow>
          (case rq_content body of
             None \<Rightarrow> None
           | Some [] \<Rightarrow> None
           | Some ((ct, media) # es) \<Rightarrow>
               if length ct > 0
               then Some \<lparr>rb_contentType = ct, rb_schema = m_schema media,
                          rb_required = orElse (rq_required body) False\<rparr>
               else None))"

definition buildOp :: "(string \<Rightarrow> string) \<Rightarrow> string \<Rightarrow> PathItem \<Rightarrow> HttpMethod \<Rightarrow> RawOperation \<Rightarrow> Op" where
  "buildOp cc p item method opObj =
     (let tag = tagOf opObj;
          operationId = operationIdOf cc method p opObj;
          allParams = orElse (pi_parameters item) [] @ orElse (ro_parameters opObj) [];
          params = map toParam allParams;
          pathParams = filter (\<lambda>q. p_in q = ''path'') params;
          queryParams = filter (\<lambda>q. p_in q = ''query'') params;
          headerParams = filter (\<lambda>q. p_in q = ''header'') params;
          cookieParams = filter (\<lambda>q. p_in q = ''cookie'') params;
          responses = map (\<lambda>(code, res). (code, toResponse res)) (orElse (ro_responses opObj) [])
      in \<lparr>op_tag = tag,
          op_operationId = operationId,
          op_method = method,
          op_path = p,
          op_summary = ro_summary opObj,
          op_description = ro_description opObj,
          op_params = params,
          op_requestBody = toRequestBody (ro_requestBody opObj),
          op_responses = responses,
          op_pathParams = pathParams,
          op_queryParams = queryParams,
          op_headerParams = headerParams,
          op_cookieParams = cookieParams\<rparr>)"

text \<open>The two nested loops: every path in document order, and for each the six
  methods in the fixed order of the source; an operation is pushed for every method the
  path item declares.\<close>

definition pathItemOps :: "(string \<Rightarrow> string) \<Rightarrow> string \<Rightarrow> PathItem \<Rightarrow> Op list" where
  "pathItemOps cc p item =
     concat (map (\<lambda>method. case pi_operation item method of
                               None \<Rightarrow> []
                             | Some opObj \<Rightarrow> [buildOp cc p item method opObj])
               [Get, Post, Put, Patch, Delete, Head])"

definition extractOps :: "(string \<Rightarrow> string) \<Rightarrow> Document \<Rightarrow> Op list" where
  "extractOps cc api =
     concat (map (\<lambda>(p, item). case item of None \<Rightarrow> [] | Some it \<Rightarrow> pathItemOps cc p it)
               (orElse (doc_paths api) []))"

definition toSpecModel :: "(string \<Rightarrow> string) \<Rightarrow> Document \<Rightarrow> SpecModel" where
  "toSpecModel cc api =
     \<lparr>sm_ops = extractOps cc api,
      sm_title = doc_title api,
      sm_version = doc_version api,
      sm_baseUrl = doc_serverUrl api\<rparr>"

section \<open>The environment of a run\<close>

text \<open>
  What the generator calls and does not define: the case conversion, the bundler of
  swagger-parser (it reads or fetches the document, parses it and resolves its
  references, or fails), the file read and the JSON parser and printer of the runtime,
  the path functions of Node, and the outcome of the two file-system calls of the
  writer, which may fail depending on the path and on what was written before.
\<close>

datatype fsop = Mkdir string | WriteFile string string

record env =
  env_camelCase :: "string \<Rightarrow> string"
  env_bundle :: "string \<Rightarrow> error + Document"
  env_readFileSync :: "string \<Rightarrow> error + string"
  env_JSON_parse :: "string \<Rightarrow> error + jsval"
  env_JSON_stringify :: "jsval \<Rightarrow> string"
  env_path_join :: "string \<Rightarrow> string \<Rightarrow> string"
  env_dirname :: "string \<Rightarrow> string"
  env_mkdir_error :: "fsop list \<Rightarrow> string \<Rightarrow> error option"
  env_writeFile_error :: "fsop list \<Rightarrow> string \<Rightarrow> error option"

definition loadSpec :: "env \<Rightarrow> string \<Rightarrow> error + SpecModel" where
  "loadSpec e pathOrUrl =
     (case env_bundle e pathOrUrl of
        Inl err \<Rightarrow> Inl err
      | Inr api \<Rightarrow> Inr (toSpecModel (env_camelCase e) api))"

section \<open>The integration descriptor (loaders/openapi-ts.ts)\<close>

record OpenApiTsConfig =
  cfg_typesPath :: jsval
  cfg_baseUrl :: "string option"
  cfg_headers :: "jsval option"

record OpenApiTsIntegration =
  int_typesPath :: jsval
  int_baseUrl :: "string option"
  int_headers :: "jsval option"

definition truthy :: "jsval \<Rightarrow> bool" where
  "truthy v =
     (case v of
        Undefined \<Rightarrow> False
      | Null \<Rightarrow> False
      | JBool b \<Rightarrow> b
      | JNum i \<Rightarrow> i \<noteq> 0
      | JStr s \<Rightarrow> s \<noteq> []
      | JArr xs \<Rightarrow> True
      | JObj es \<Rightarrow> True)"

definition typeofObject :: "jsval \<Rightarrow> bool" where
  "typeofObject v = (case v of Null \<Rightarrow> True | JArr xs \<Rightarrow> True | JObj es \<Rightarrow> True | _ \<Rightarrow> False)"

text \<open>Reading a property of a parsed JSON value: \<open>null\<close> throws, an object gives the
  entry or \<open>undefined\<close>, anything else has no such property.\<close>

definition getProp :: "jsval \<Rightarrow> string \<Rightarrow> error + jsval" where
  "getProp v k =
     (case v of
        Null \<Rightarrow> Inl TypeError
      | Undefined \<Rightarrow> Inl TypeError
      | JObj es \<Rightarrow> Inr (case map_of es k of None \<Rightarrow> Undefined | Some x \<Rightarrow> x)
      | _ \<Rightarrow> Inr Undefined)"

text \<open>The body of the \<open>try\<close> block.\<close>

definition readOpenApiTsConfig :: "env \<Rightarrow> string \<Rightarrow> error + OpenApiTsConfig" where
  "readOpenApiTsConfig e configPath =
     (case env_readFileSync e configPath of
        Inl err \<Rightarrow> Inl err
      | Inr text \<Rightarrow>
     (case env_JSON_parse e text of
        Inl err \<Rightarrow> Inl err
      | Inr config \<Rightarrow>
     (case getProp config ''typesPath'' of
        Inl err \<Rightarrow> Inl err
      | Inr typesPath \<Rightarrow>
     (case getProp config ''baseUrl'' of
        Inl err \<Rightarrow> Inl err
      | Inr baseUrl \<Rightarrow>
     (case getProp config ''headers'' of
        Inl err \<Rightarrow> Inl err
      | Inr headers \<Rightarrow>
          Inr \<lparr>cfg_typesPath = (if truthy typesPath then typesPath else JStr ''./src/api/types.ts''),
               cfg_baseUrl = (case baseUrl of JStr s \<Rightarrow> Some s | _ \<Rightarrow> None),
               cfg_headers = (if truthy headers \<and> typeofObject headers then Some headers else None)\<rparr>)))))"

definition loadOpenApiTsConfig :: "env \<Rightarrow> string option \<Rightarrow> OpenApiTsConfig option" where
  "loadOpenApiTsConfig e configPath =
     (case configPath of
        None \<Rightarrow> None
      | Some p \<Rightarrow>
          if p = [] then None
          else (case readOpenApiTsConfig e p of Inl err \<Rightarrow> None | Inr result \<Rightarrow> Some result))"

definition generateOpenApiTsIntegration ::
    "env \<Rightarrow> string \<Rightarrow> string \<Rightarrow> OpenApiTsConfig \<Rightarrow> OpenApiTsIntegration" where
  "generateOpenApiTsIntegration e specPath outputDir config =
     \<lparr>int_typesPath = (if truthy (cfg_typesPath config) then cfg_typesPath config
                        else JStr (env_path_join e outputDir ''types.ts'')),
      int_baseUrl = (case cfg_baseUrl config of
                       None \<Rightarrow> None
                     | Some b \<Rightarrow> if b \<noteq> [] then Some b else None),
      int_headers = cfg_headers config\<rparr>"

section \<open>The client renderer (client.tpl.ts)\<close>

definition clientTextA :: string where
  \<open>clientTextA =
     ''\<newline>'' @
     ''\<newline>'' @
     ''export type ClientConfig = {\<newline>'' @
     ''  baseUrl?: string;\<newline>'' @
     ''  headers?: Record<string, string>;\<newline>'' @
     ''  fetch?: typeof fetch;\<newline>'' @
     ''  retry?: {\<newline>'' @
     ''    attempts?: number;\<newline>'' @
     ''    delay?: number;\<newline>'' @
     ''    backoff?: 'linear' | 'exponential';\<newline>'' @
     ''  };\<newline>'' @
     ''};\<newline>'' @
     ''\<newline>'' @
     ''export class ApiError<T = unknown> extends Error {\<newline>'' @
     ''  status: number;\<newline>'' @
     ''  body?: T | undefined;\<newline>'' @
     ''  code?: string | undefined;\<newline>'' @
     ''  \<newline>'' @
     ''  constructor(msg: string, status: number, body?: T | undefined, code?: string | undefined) { \<newline>'' @
     ''    super(msg); \<newline>'' @
     ''    this.status = status; \<newline>'' @
     ''    this.body = body;\<newline>'' @
     ''    this.code = code;\<newline>'' @
     ''  }\<newline>'' @
     ''  \<newline>'' @
     ''  static fromOpenApiTsError(error: any): ApiError {\<newline>'' @
     ''    return new ApiError(\<newline>'' @
     ''      error.message || 'API Error',\<newline>'' @
     ''      error.status || 500,\<newline>'' @
     ''      error.body,\<newline>'' @
     ''      error.code\<newline>'' @
     ''    );\<newline>'' @
     ''  }\<newline>'' @
     ''}\<newline>'' @
     ''\<newline>'' @
     ''export const createClient = (cfg: ClientConfig = {}) => {\<newline>'' @
     ''  const f = cfg.fetch ?? fetch;\<newline>'' @
     ''  const base = (cfg.baseUrl ?? "''\<close>

definition clientTextB :: string where
  \<open>clientTextB =
     ''").replace(/'' @ [CHR 0x5C] @ ''/$/, "");\<newline>'' @
     ''  \<newline>'' @
     ''  const defaultHeaders = {\<newline>'' @
     ''    "content-type": "application/json",\<newline>'' @
     ''    ...(cfg.headers ?? {})\<newline>'' @
     ''  };\<newline>'' @
     ''\<newline>'' @
     ''  async function request<T>(\<newline>'' @
     ''    method: string, \<newline>'' @
     ''    path: string, \<newline>'' @
     ''    init?: RequestInit & { \<newline>'' @
     ''      retry?: boolean;\<newline>'' @
     ''      timeout?: number;\<newline>'' @
     ''    }\<newline>'' @
     ''  ): Promise<T> {\<newline>'' @
     ''    const { retry = true, timeout = 30000, ...requestInit } = init || {};\<newline>'' @
     ''    \<newline>'' @
     ''    const controller = new AbortController();\<newline>'' @
     ''    const timeoutId = setTimeout(() => controller.abort(), timeout);\<newline>'' @
     ''    \<newline>'' @
     ''    try {\<newline>'' @
     ''      const res = await f(base + path, { \<newline>'' @
     ''        method, \<newline>'' @
     ''        headers: { ...defaultHeaders, ...requestInit.headers }, \<newline>'' @
     ''        signal: controller.signal,\<newline>'' @
     ''        ...requestInit\<newline>'' @
     ''      });\<newline>'' @
     ''      \<newline>'' @
     ''      clearTimeout(timeoutId);\<newline>'' @
     ''      \<newline>'' @
     ''      if (!res.ok) {\<newline>'' @
     ''        let errorBody: any;\<newline>'' @
     ''        try {\<newline>'' @
     ''          const text = await res.text();\<newline>'' @
     ''          errorBody = text ? JSON.parse(text) : undefined;\<newline>'' @
     ''        } catch {\<newline>'' @
     ''          errorBody = undefined;\<newline>'' @
     ''        }\<newline>'' @
     ''        \<newline>'' @
     ''        throw new ApiError(\<newline>'' @
     ''          res.statusText || '' @ bq @ ''HTTP ${res.status}'' @ bq @ '',\<newline>'' @
     ''          res.status,\<newline>'' @
     ''          errorBody,\<newline>'' @
     ''          res.status.toString()\<newline>'' @
     ''        );\<newline>'' @
     ''      }\<newline>'' @
     ''      \<newline>'' @
     ''      const text = await res.text();\<newline>'' @
     ''      return text ? JSON.parse(text) : ({} as T);\<newline>'' @
     ''    } catch (error) {\<newline>'' @
     ''      clearTimeout(timeoutId);\<newline>'' @
     ''      \<newline>'' @
     ''      if (error instanceof ApiError) throw error;\<newline>'' @
     ''      if (error instanceof Error && error.name === 'AbortError') {\<newline>'' @
     ''        throw new ApiError('Request timeout', 408);\<newline>'' @
     ''      }\<newline>'' @
     ''      \<newline>'' @
     ''      throw new ApiError(\<newline>'' @
     ''        error instanceof Error ? error.message : 'Unknown error',\<newline>'' @
     ''        0,\<newline>'' @
     ''        undefined,\<newline>'' @
     ''        'NETWORK_ERROR'\<newline>'' @
     ''      );\<newline>'' @
     ''    }\<newline>'' @
     ''  }\<newline>'' @
     ''  \<newline>'' @
     ''  return { request };\<newline>'' @
     ''}\<newline>'' @
     ''\<newline>''\<close>

definition renderClient :: "string \<Rightarrow> OpenApiTsIntegration option \<Rightarrow> string" where
  "renderClient baseUrl openApiTsIntegration =
     ''\<newline>// GENERATED FILE\<newline>'' @
     (case openApiTsIntegration of
        Some i \<Rightarrow> ''import type { paths } from '' @ sq @ jsString (int_typesPath i) @ sq @ '';''
      | None \<Rightarrow> []) @
     clientTextA @ baseUrl @ clientTextB @
     (case openApiTsIntegration of
        Some i \<Rightarrow>
          ''\<newline>// OpenAPI-TS Integration\<newline>'' @
          ''// Import types from your openapi-typescript generated file\<newline>'' @
          ''export type { paths, components } from '' @ sq @ jsString (int_typesPath i) @ sq @ '';\<newline>''
      | None \<Rightarrow> []) @
     ''\<newline>''"

section \<open>The generation run (generate.ts, emit/writeFiles.ts, cli.ts)\<close>

record GenerateOptions =
  go_schema :: string
  go_outDir :: string
  go_baseUrl :: string
  go_groupByTag :: bool
  go_openApiTsConfig :: "string option"
  go_generateTypes :: bool
  go_verbose :: bool
  go_dryRun :: bool

record File =
  f_path :: string
  f_contents :: string

text \<open>
  The state a run changes: the file-system calls that took effect, in order, and the
  lines printed. A printed line is kept as the data it is made of.
\<close>

datatype logMsg =
    ParsedOperations "(string \<times> string \<times> string) list"
  | DryRunPlan "string list"
  | Summary bool nat string
  | IntegrationNote bool
  | ErrorMessage error

record World =
  w_fs :: "fsop list"
  w_console :: "logMsg list"

definition mkdir :: "env \<Rightarrow> string \<Rightarrow> World \<Rightarrow> (error + unit) \<times> World" where
  "mkdir e dir w =
     (case env_mkdir_error e (w_fs w) dir of
        Some err \<Rightarrow> (Inl err, w)
      | None \<Rightarrow> (Inr (), w\<lparr>w_fs := w_fs w @ [Mkdir dir]\<rparr>))"

definition writeFile :: "env \<Rightarrow> string \<Rightarrow> string \<Rightarrow> World \<Rightarrow> (error + unit) \<times> World" where
  "writeFile e p contents w =
     (case env_writeFile_error e (w_fs w) p of
        Some err \<Rightarrow> (Inl err, w)
      | None \<Rightarrow> (Inr (), w\<lparr>w_fs := w_fs w @ [WriteFile p contents]\<rparr>))"

fun writeFiles :: "env \<Rightarrow> File list \<Rightarrow> World \<Rightarrow> (error + unit) \<times> World" where
  "writeFiles e [] w = (Inr (), w)"
| "writeFiles e (f # files) w =
     (case mkdir e (env_dirname e (f_path f)) w of
        (Inl err, w1) \<Rightarrow> (Inl err, w1)
      | (Inr u, w1) \<Rightarrow>
          (case writeFile e (f_path f) (f_contents f) w1 of
             (Inl err, w2) \<Rightarrow> (Inl err, w2)
           | (Inr u', w2) \<Rightarrow> writeFiles e files w2))"

text \<open>\<open>Map.prototype.get\<close> and \<open>Map.prototype.set\<close> on a map kept as the list of its
  entries in insertion order: setting a present key keeps its place.\<close>

definition mapGet :: "('k \<times> 'v) list \<Rightarrow> 'k \<Rightarrow> 'v option" where
  "mapGet m k = map_of m k"

fun mapSet :: "('k \<times> 'v) list \<Rightarrow> 'k \<Rightarrow> 'v \<Rightarrow> ('k \<times> 'v) list" where
  "mapSet [] k v = [(k, v)]"
| "mapSet ((k', v') # m) k v = (if k' = k then (k, v) # m else (k', v') # mapSet m k v)"

text \<open>The body of the loop that groups the operations by tag, and the loop.\<close>

definition groupStep :: "Op \<Rightarrow> ByTag \<Rightarrow> ByTag" where
  "groupStep op byTag =
     (let list = orElse (mapGet byTag (op_tag op)) []
      in mapSet byTag (op_tag op) (list @ [op]))"

definition groupOpsByTag :: "Op list \<Rightarrow> ByTag" where
  "groupOpsByTag ops = fold groupStep ops []"

definition generateTypesFile :: "SpecModel \<Rightarrow> string" where
  "generateTypesFile spec =
     ''// GENERATED TYPES\<newline>'' @
     ''export interface ApiResponse<T = any> {\<newline>'' @
     ''  data: T;\<newline>'' @
     ''  status: number;\<newline>'' @
     ''  statusText: string;\<newline>'' @
     ''}\<newline>\<newline>'' @
     ''export interface ApiError {\<newline>'' @
     ''  message: string;\<newline>'' @
     ''  status: number;\<newline>'' @
     ''  code?: string;\<newline>'' @
     ''  body?: any;\<newline>'' @
     ''}\<newline>\<newline>'' @
     ''// Operation types\<newline>'' @
     join ''\<newline>''
       (map (\<lambda>op.
               let operationName = op_operationId op;
                   pathParams = op_pathParams op;
                   queryParams = op_queryParams op
               in ''\<newline>export interface '' @ operationName @ ''Params {\<newline>  '' @
                  join ''\<newline>  '' (map (\<lambda>p. p_name p @ '': '' @ getTypeScriptType p) pathParams) @
                  ''\<newline>  '' @
                  join ''\<newline>  ''
                    (map (\<lambda>p. p_name p @ (if p_required p then [] else ''?'') @ '': '' @ getTypeScriptType p)
                       queryParams) @
                  ''\<newline>}'')
          (sm_ops spec)) @
     ''\<newline>''"

definition generateOpenApiTsConfigFile :: "env \<Rightarrow> OpenApiTsIntegration \<Rightarrow> string" where
  \<open>generateOpenApiTsConfigFile e integration =
     ''// OpenAPI-TS Configuration\<newline>'' @
     ''export const openApiTsConfig = {\<newline>'' @
     ''  typesPath: "'' @ jsString (int_typesPath integration) @ ''",\<newline>'' @
     ''  baseUrl: "'' @ orElse (int_baseUrl integration) [] @ ''",\<newline>'' @
     ''  headers: '' @ env_JSON_stringify e (orElse (int_headers integration) (JObj [])) @ ''\<newline>'' @
     ''} as const;\<newline>\<newline>'' @
     ''export type OpenApiTsConfig = typeof openApiTsConfig;\<newline>''\<close>

text \<open>The list \<open>plannedFiles\<close> that \<open>generate\<close> builds: the core files, the types
  file if requested, the hook files (one per tag or one combined), the integration file
  if configured. Rendering the hooks may throw.\<close>

definition plannedFiles ::
    "env \<Rightarrow> GenerateOptions \<Rightarrow> SpecModel \<Rightarrow> OpenApiTsIntegration option \<Rightarrow> ByTag \<Rightarrow> error + File list" where
  "plannedFiles e opts spec openApiTsIntegration byTag =
     (let cc = env_camelCase e;
          outDir = go_outDir opts;
          core = [\<lparr>f_path = outDir @ ''/client.ts'',
                    f_contents = renderClient (go_baseUrl opts) openApiTsIntegration\<rparr>,
                  \<lparr>f_path = outDir @ ''/queryKeys.ts'', f_contents = renderQueryKeys cc byTag\<rparr>,
                  \<lparr>f_path = outDir @ ''/invalidate.ts'', f_contents = renderInvalidate cc byTag\<rparr>];
          types = (if go_generateTypes opts
                   then [\<lparr>f_path = outDir @ ''/types.ts'', f_contents = generateTypesFile spec\<rparr>]
                   else []);
          hooks = (if go_groupByTag opts
                   then mapE (\<lambda>(tag, ops).
                                case renderHooksByTag cc tag ops of
                                  Inl err \<Rightarrow> Inl err
                                | Inr contents \<Rightarrow>
                                    Inr \<lparr>f_path = outDir @ ''/hooks/'' @ tag @ ''.generated.ts'',
                                         f_contents = contents\<rparr>)
                          byTag
                   else (case renderHooksCombined cc byTag of
                           Inl err \<Rightarrow> Inl err
                         | Inr contents \<Rightarrow>
                             Inr [\<lparr>f_path = outDir @ ''/hooks.generated.ts'', f_contents = contents\<rparr>]));
          integration = (case openApiTsIntegration of
                           None \<Rightarrow> []
                         | Some i \<Rightarrow> [\<lparr>f_path = outDir @ ''/openapi-ts.config.ts'',
                                        f_contents = generateOpenApiTsConfigFile e i\<rparr>])
      in case hooks of
           Inl err \<Rightarrow> Inl err
         | Inr hookFiles \<Rightarrow> Inr (core @ types @ hookFiles @ integration))"

definition logLine :: "logMsg \<Rightarrow> World \<Rightarrow> World" where
  "logLine msg w = w\<lparr>w_console := w_console w @ [msg]\<rparr>"

text \<open>The two constants \<open>openApiTsConfig\<close> and \<open>openApiTsIntegration\<close> at the start of
  \<open>generate\<close>.\<close>

definition resolveIntegration :: "env \<Rightarrow> GenerateOptions \<Rightarrow> OpenApiTsIntegration option" where
  "resolveIntegration e opts =
     (let openApiTsConfig =
            (case go_openApiTsConfig opts of
               None \<Rightarrow> None
             | Some p \<Rightarrow> if p \<noteq> [] then loadOpenApiTsConfig e (Some p) else None)
      in case openApiTsConfig of
           None \<Rightarrow> None
         | Some config \<Rightarrow>
             Some (generateOpenApiTsIntegration e (go_schema opts) (go_outDir opts) config))"

text \<open>The print of the parsed operations under \<open>--verbose\<close>.\<close>

definition logParsed :: "GenerateOptions \<Rightarrow> SpecModel \<Rightarrow> World \<Rightarrow> World" where
  "logParsed opts spec w =
     (if go_verbose opts
      then logLine (ParsedOperations
             (map (\<lambda>op. (toUpperCase (methodName (op_method op)), op_path op, op_operationId op))
                (sm_ops spec))) w
      else w)"

text \<open>The prints after the files are written or the plan is reported.\<close>

definition logSummary :: "GenerateOptions \<Rightarrow> SpecModel \<Rightarrow> OpenApiTsIntegration option \<Rightarrow> World \<Rightarrow> World" where
  "logSummary opts spec openApiTsIntegration w =
     (let w3 = logLine (Summary (go_dryRun opts) (length (sm_ops spec)) (go_outDir opts)) w
      in if openApiTsIntegration \<noteq> None then logLine (IntegrationNote (go_dryRun opts)) w3 else w3)"

definition generate :: "env \<Rightarrow> GenerateOptions \<Rightarrow> World \<Rightarrow> (error + unit) \<times> World" where
  "generate e opts w =
     (case loadSpec e (go_schema opts) of
        Inl err \<Rightarrow> (Inl err, w)
      | Inr spec \<Rightarrow>
          (let openApiTsIntegration = resolveIntegration e opts;
               byTag = groupOpsByTag (sm_ops spec);
               w1 = logParsed opts spec w
           in case plannedFiles e opts spec openApiTsIntegration byTag of
                Inl err \<Rightarrow> (Inl err, w1)
              | Inr files \<Rightarrow>
                  (case (if go_dryRun opts
                         then (Inr (), logLine (DryRunPlan (map f_path files)) w1)
                         else writeFiles e files w1) of
                     (Inl err, w2) \<Rightarrow> (Inl err, w2)
                   | (Inr u, w2) \<Rightarrow> (Inr (), logSummary opts spec openApiTsIntegration w2))))"

text \<open>Observations of a run: the value of \<open>plannedFiles\<close> when \<open>generate\<close> reaches
  the dry-run test, the paths written by a sequence of file-system calls, and the path
  lists that the dry-run lines of a console report.\<close>

definition runPlan :: "env \<Rightarrow> GenerateOptions \<Rightarrow> error + File list" where
  "runPlan e opts =
     (case loadSpec e (go_schema opts) of
        Inl err \<Rightarrow> Inl err
      | Inr spec \<Rightarrow>
          plannedFiles e opts spec (resolveIntegration e opts) (groupOpsByTag (sm_ops spec)))"

text \<open>The paths of the plan as the file planner's contract lists them: the three core
  files, the types file if requested, one hook file per tag or the combined one, the
  integration file if configured.\<close>

definition hookPaths :: "GenerateOptions \<Rightarrow> ByTag \<Rightarrow> string list" where
  "hookPaths opts byTag =
     (if go_groupByTag opts
      then map (\<lambda>(tag, ops). go_outDir opts @ ''/hooks/'' @ tag @ ''.generated.ts'') byTag
      else [go_outDir opts @ ''/hooks.generated.ts''])"

definition plannedPaths :: "GenerateOptions \<Rightarrow> ByTag \<Rightarrow> OpenApiTsIntegration option \<Rightarrow> string list" where
  "plannedPaths opts byTag i =
     [go_outDir opts @ ''/client.ts'', go_outDir opts @ ''/queryKeys.ts'',
      go_outDir opts @ ''/invalidate.ts''] @
     (if go_generateTypes opts then [go_outDir opts @ ''/types.ts''] else []) @
     hookPaths opts byTag @
     (if i \<noteq> None then [go_outDir opts @ ''/openapi-ts.config.ts''] else [])"

definition writtenPaths :: "fsop list \<Rightarrow> string list" where
  "writtenPaths tr = concat (map (\<lambda>x. case x of WriteFile p c \<Rightarrow> [p] | Mkdir d \<Rightarrow> []) tr)"

definition dryRunPlans :: "logMsg list \<Rightarrow> string list list" where
  "dryRunPlans msgs = concat (map (\<lambda>m. case m of DryRunPlan ps \<Rightarrow> [ps] | _ \<Rightarrow> []) msgs)"

text \<open>The command line: the parsed options, the call of \<open>generate\<close> and the handler
  of a rejection, which prints the error and exits with status 1. Without a rejection
  the process ends with status 0.\<close>

record CliOpts =
  c_schema :: string
  c_out :: string
  c_baseUrl :: string
  c_groupByTag :: bool
  c_openapiTsConfig :: "string option"
  c_generateTypes :: "bool option"

definition cli :: "env \<Rightarrow> CliOpts \<Rightarrow> World \<Rightarrow> nat \<times> World" where
  "cli e opts w =
     (case generate e
             \<lparr>go_schema = c_schema opts,
              go_outDir = c_out opts,
              go_baseUrl = c_baseUrl opts,
              go_groupByTag = c_groupByTag opts,
              go_openApiTsConfig = (case c_openapiTsConfig opts of
                                      None \<Rightarrow> None
                                    | Some p \<Rightarrow> if p \<noteq> [] then Some p else None),
              go_generateTypes = orElse (c_generateTypes opts) False,
              go_verbose = False,
              go_dryRun = False\<rparr> w of
        (Inl err, w') \<Rightarrow> (1, logLine (ErrorMessage err) w')
      | (Inr u, w') \<Rightarrow> (0, w'))"

section \<open>Example data\<close>

definition pathParam :: "string \<Rightarrow> bool \<Rightarrow> Param" where
  "pathParam n r =
     \<lparr>p_name = n, p_in = ''path'', p_required = r, p_schema = None, p_type = None, p_format = None\<rparr>"

definition exampleOp :: "string \<Rightarrow> string \<Rightarrow> HttpMethod \<Rightarrow> string \<Rightarrow> Param list \<Rightarrow> Op" where
  "exampleOp t i m p pps =
     \<lparr>op_tag = t, op_operationId = i, op_method = m, op_path = p, op_summary = None,
      op_description = None, op_params = pps, op_requestBody = None, op_responses = [],
      op_pathParams = pps, op_queryParams = [], op_headerParams = [], op_cookieParams = []\<rparr>"

definition petParameter :: RawParam where
  "petParameter = \<lparr>rp_name = ''petId'', rp_in = ''path'', rp_required = Some True, rp_schema = None\<rparr>"

definition rawOperation :: "string list option \<Rightarrow> string option \<Rightarrow> RawParam list \<Rightarrow> RawOperation" where
  "rawOperation tags oid ps =
     \<lparr>ro_tags = tags, ro_operationId = oid, ro_summary = None, ro_description = None,
      ro_parameters = Some ps, ro_responses = None, ro_requestBody = None\<rparr>"

text \<open>A document with one path, \<open>/pets/{petId}\<close>, that declares \<open>get\<close> (operation
  \<open>getPetById\<close>, tags \<open>Pets\<close> and \<open>Animals\<close>) and \<open>delete\<close> (no operation id, no tags).\<close>

definition petDocument :: Document where
  "petDocument =
     \<lparr>doc_paths = Some [(''/pets/{petId}'',
         Some \<lparr>pi_parameters = None,
               pi_operation = (\<lambda>m. case m of
                   Get \<Rightarrow> Some (rawOperation (Some [''Pets'', ''Animals'']) (Some ''getPetById'') [petParameter])
                 | Delete \<Rightarrow> Some (rawOperation None None [petParameter])
                 | _ \<Rightarrow> None)\<rparr>)],
      doc_title = Some ''Petstore'', doc_version = Some ''1.0.0'', doc_serverUrl = None\<rparr>"

text \<open>The same path with an operation whose declared id is \<open>{}\<close>.\<close>

definition bracePathItem :: PathItem where
  "bracePathItem =
     \<lparr>pi_parameters = None,
      pi_operation = (\<lambda>m. case m of
          Get \<Rightarrow> Some (rawOperation (Some [''pets'']) (Some ''{}'') [])
        | _ \<Rightarrow> None)\<rparr>"

definition braceDocument :: Document where
  "braceDocument =
     \<lparr>doc_paths = Some [(''/pets'', Some bracePathItem)],
      doc_title = None, doc_version = None, doc_serverUrl = None\<rparr>"

text \<open>An environment in which \<open>petstore.yaml\<close> and \<open>braces.yaml\<close> bundle to the two
  documents, every other source is unreachable, no file can be read and every write
  succeeds.\<close>

definition exampleEnv :: env where
  "exampleEnv =
     \<lparr>env_camelCase = camelCase,
      env_bundle = (\<lambda>src. if src = ''petstore.yaml'' then Inr petDocument
                          else if src = ''braces.yaml'' then Inr braceDocument
                          else Inl (Failure ''ENOENT'')),
      env_readFileSync = (\<lambda>p. Inl (Failure ''ENOENT'')),
      env_JSON_parse = (\<lambda>t. Inl (Failure ''SyntaxError'')),
      env_JSON_stringify = (\<lambda>v. ''{}''),
      env_path_join = (\<lambda>a b. a @ ''/'' @ b),
      env_dirname = (\<lambda>p. rev (tl (dropWhile (\<lambda>c. c \<noteq> CHR ''/'') (rev p)))),
      env_mkdir_error = (\<lambda>tr d. None),
      env_writeFile_error = (\<lambda>tr p. None)\<rparr>"

definition exampleOptions :: GenerateOptions where
  "exampleOptions =
     \<lparr>go_schema = ''petstore.yaml'', go_outDir = ''out'', go_baseUrl = ''/api'',
      go_groupByTag = True, go_openApiTsConfig = None, go_generateTypes = False,
      go_verbose = False, go_dryRun = False\<rparr>"

definition exampleCliOpts :: CliOpts where
  "exampleCliOpts =
     \<lparr>c_schema = ''nowhere.yaml'', c_out = ''out'', c_baseUrl = ''/api'', c_groupByTag = True,
      c_openapiTsConfig = None, c_generateTypes = None\<rparr>"

definition emptyWorld :: World where
  "emptyWorld = \<lparr>w_fs = [], w_console = []\<rparr>"

section \<open>Properties of the emitted query-parameter serializer\<close>

lemma fold_sp_append:
  "fold (\<lambda>item sp. sp_append sp key (jsString item)) items sp
     = sp @ map (\<lambda>item. (key, jsString item)) items"
  by (induction items arbitrary: sp) (simp_all add: sp_append_def)

lemma forEachEntry_spec_pairs: "forEachEntry e sp = sp @ spec_pairs e"
proof (cases e)
  case (Pair key val)
  then show ?thesis
    by (cases val)
       (simp_all add: forEachEntry_def spec_pairs_def fold_sp_append [unfolded sp_append_def]
          sp_append_def)
qed

lemma fold_forEachEntry:
  "fold forEachEntry entries sp = sp @ concat (map spec_pairs entries)"
  by (induction entries arbitrary: sp) (simp_all add: forEachEntry_spec_pairs)

lemma join_Cons_nonempty: "x \<noteq> [] \<Longrightarrow> join sep (x # xs) \<noteq> []"
  by (cases xs) simp_all

lemma sp_toString_empty_iff: "sp_toString ps = [] \<longleftrightarrow> ps = []"
proof (cases ps)
  case Nil
  then show ?thesis by (simp add: sp_toString_def)
next
  case (Cons p ps')
  obtain k v where p: "p = (k, v)" by (cases p)
  have "urlencode k @ ''='' @ urlencode v \<noteq> []" by simp
  then have "join ''&'' ((urlencode k @ ''='' @ urlencode v) #
      map (\<lambda>(name, val). urlencode name @ ''='' @ urlencode val) ps') \<noteq> []"
    by (rule join_Cons_nonempty)
  with Cons p show ?thesis by (simp add: sp_toString_def)
qed

lemma serializeQuery_refines: "serializeQuery input = serializeQuery_spec input"
proof (cases input)
  case None
  then show ?thesis by (simp add: serializeQuery_def serializeQuery_spec_def)
next
  case (Some entries)
  then show ?thesis
    using sp_toString_empty_iff [of "concat (map spec_pairs entries)"]
    by (simp add: serializeQuery_def serializeQuery_spec_def fold_forEachEntry Let_def
          sp_toString_def)
qed

lemma serializeQuery_skips:
  "serializeQuery (Some (filter (\<lambda>(k, v). v \<noteq> Undefined \<and> v \<noteq> Null) entries))
     = serializeQuery (Some entries)"
proof -
  have "concat (map spec_pairs (filter (\<lambda>(k, v). v \<noteq> Undefined \<and> v \<noteq> Null) entries))
      = concat (map spec_pairs entries)"
    by (induction entries) (auto simp: spec_pairs_def split: jsval.splits)
  then show ?thesis by (simp add: serializeQuery_refines serializeQuery_spec_def)
qed

lemma serializeQuery_all_undefined:
  "serializeQuery (Some (map (\<lambda>k. (k, Undefined)) keys)) = []"
proof -
  have "concat (map spec_pairs (map (\<lambda>k. (k, Undefined)) keys)) = []"
    by (induction keys) (simp_all add: spec_pairs_def)
  then show ?thesis by (simp add: serializeQuery_refines serializeQuery_spec_def)
qed

lemma serializeQuery_example:
  "serializeQuery (Some [(''status'', JArr [JStr ''available'', JStr ''pending'']),
                         (''limit'', JNum 10), (''includeDeleted'', Undefined)])
     = ''?status=available&status=pending&limit=10''"
  by code_simp

text \<open>
  C2. The emitted serializer computes exactly the policy of the specification
  (\<open>serializeQuery_spec\<close>: entries with an \<open>undefined\<close> or \<open>null\<close> value are skipped, an
  array value gives one pair per element under the same key in array order, any other
  value is stringified, no pair gives the empty string and otherwise the encoding is
  prefixed with a question mark). In particular dropping the \<open>undefined\<close> and \<open>null\<close>
  entries beforehand changes nothing, a missing, empty or all-undefined mapping gives
  the empty string, and the mapping
  \<open>{status: ["available","pending"], limit: 10, includeDeleted: undefined}\<close> gives
  \<open>?status=available&status=pending&limit=10\<close>.
\<close>

theorem C2_serializeQuery_policy:
  "serializeQuery input = serializeQuery_spec input
   \<and> serializeQuery (Some (filter (\<lambda>(k, v). v \<noteq> Undefined \<and> v \<noteq> Null) entries))
       = serializeQuery (Some entries)
   \<and> serializeQuery None = []
   \<and> serializeQuery (Some []) = []
   \<and> serializeQuery (Some (map (\<lambda>k. (k, Undefined)) keys)) = []
   \<and> serializeQuery (Some [(''status'', JArr [JStr ''available'', JStr ''pending'']),
                            (''limit'', JNum 10), (''includeDeleted'', Undefined)])
       = ''?status=available&status=pending&limit=10''"
proof -
  have "serializeQuery None = []" "serializeQuery (Some []) = []"
    by (simp_all add: serializeQuery_def sp_toString_def)
  then show ?thesis
    using serializeQuery_refines serializeQuery_skips serializeQuery_all_undefined
      serializeQuery_example
    by blast
qed

section \<open>Lists of results and occurrences in text\<close>

lemma mapE_Inr_iff: "mapE f xs = Inr ys \<longleftrightarrow> list_all2 (\<lambda>x y. f x = Inr y) xs ys"
proof (induction xs arbitrary: ys)
  case Nil
  then show ?case by auto
next
  case (Cons x xs)
  show ?case
  proof (cases "f x")
    case (Inl e)
    then show ?thesis by (auto simp: list_all2_Cons1)
  next
    case (Inr y)
    then show ?thesis
      using Cons.IH by (cases "mapE f xs") (auto simp: list_all2_Cons1)
  qed
qed

lemma mapE_total:
  "(\<forall>x\<in>set xs. \<exists>y. f x = Inr y) \<Longrightarrow> \<exists>ys. mapE f xs = Inr ys"
proof (induction xs)
  case Nil
  then show ?case by simp
next
  case (Cons x xs)
  then obtain y ys where "f x = Inr y" "mapE f xs = Inr ys" by auto
  then show ?case by simp
qed

lemma mapE_Inl_D: "mapE f xs = Inl e \<Longrightarrow> \<exists>x\<in>set xs. f x = Inl e"
proof (induction xs)
  case Nil
  then show ?case by simp
next
  case (Cons a xs)
  show ?case
  proof (cases "f a")
    case (Inl e')
    with Cons.prems show ?thesis by simp
  next
    case (Inr y)
    with Cons.prems have "mapE f xs = Inl e" by (cases "mapE f xs") simp_all
    with Cons.IH show ?thesis by auto
  qed
qed

lemma mapE_fails:
  "x \<in> set xs \<Longrightarrow> f x = Inl e \<Longrightarrow> \<exists>e'. mapE f xs = Inl e'"
proof (induction xs)
  case Nil
  then show ?case by simp
next
  case (Cons a xs)
  show ?case
  proof (cases "f a")
    case (Inl e')
    then show ?thesis by simp
  next
    case (Inr y)
    with Cons.prems have "x \<in> set xs" by auto
    from Cons.IH [OF this Cons.prems(2)] obtain e' where "mapE f xs = Inl e'" by blast
    with Inr show ?thesis by simp
  qed
qed


lemma sublist_skip: "sublist xs ys \<Longrightarrow> sublist xs (zs @ ys)"
  using sublist_order.order.trans [OF _ sublist_append_leftI] by blast

lemma sublist_here: "sublist xs ys \<Longrightarrow> sublist xs (ys @ zs)"
  using sublist_order.order.trans [OF _ sublist_append_rightI] by blast

lemma sublist_join: "x \<in> set xs \<Longrightarrow> sublist x (join sep xs)"
proof (induction sep xs rule: join.induct)
  case (1 sep)
  then show ?case by simp
next
  case (2 sep y)
  then show ?case by simp
next
  case (3 sep y z zs)
  show ?case
  proof (cases "x = y")
    case True
    then show ?thesis by simp
  next
    case False
    with 3 have "sublist x (join sep (z # zs))" by simp
    then have "sublist x (sep @ join sep (z # zs))" by (rule sublist_skip)
    then have "sublist x (y @ sep @ join sep (z # zs))" by (rule sublist_skip)
    then show ?thesis by simp
  qed
qed

lemma sublist_join_map:
  assumes "x \<in> set xs" and "sublist y (f x)"
  shows "sublist y (pre @ join sep (map f xs) @ post)"
proof -
  from assms(1) have "f x \<in> set (map f xs)" by simp
  then have "sublist (f x) (join sep (map f xs))" by (rule sublist_join)
  with assms(2) have "sublist y (join sep (map f xs))" by (rule sublist_order.order.trans)
  then show ?thesis by (intro sublist_skip sublist_here)
qed


section \<open>Properties of a generation run\<close>

lemma writeFiles_console: "w_console (snd (writeFiles e files w)) = w_console w"
  by (induction files arbitrary: w)
     (auto simp: mkdir_def writeFile_def split: option.splits prod.splits sum.splits)

lemma writeFiles_prefix:
  "\<exists>new. w_fs (snd (writeFiles e files w)) = w_fs w @ new
     \<and> prefix (writtenPaths new) (map f_path files)
     \<and> (fst (writeFiles e files w) = Inr () \<longrightarrow> writtenPaths new = map f_path files)"
proof (induction files arbitrary: w)
  case Nil
  then show ?case by (simp add: writtenPaths_def)
next
  case (Cons f files)
  show ?case
  proof (cases "env_mkdir_error e (w_fs w) (env_dirname e (f_path f))")
    case (Some err)
    then show ?thesis by (simp add: mkdir_def writtenPaths_def)
  next
    case None
    let ?w1 = "w\<lparr>w_fs := w_fs w @ [Mkdir (env_dirname e (f_path f))]\<rparr>"
    show ?thesis
    proof (cases "env_writeFile_error e (w_fs ?w1) (f_path f)")
      case (Some err)
      with None show ?thesis by (simp add: mkdir_def writeFile_def writtenPaths_def)
    next
      case None2: None
      let ?w2 = "?w1\<lparr>w_fs := w_fs ?w1 @ [WriteFile (f_path f) (f_contents f)]\<rparr>"
      from Cons.IH [of ?w2] obtain new where
        new: "w_fs (snd (writeFiles e files ?w2)) = w_fs ?w2 @ new"
          "prefix (writtenPaths new) (map f_path files)"
          "fst (writeFiles e files ?w2) = Inr () \<longrightarrow> writtenPaths new = map f_path files"
        by blast
      have "writeFiles e (f # files) w = writeFiles e files ?w2"
        using None None2 by (simp add: mkdir_def writeFile_def)
      with new show ?thesis
        by (intro exI [of _ "[Mkdir (env_dirname e (f_path f)), WriteFile (f_path f) (f_contents f)] @ new"])
           (simp add: writtenPaths_def)
    qed
  qed
qed

lemma plannedFiles_dryRun:
  "plannedFiles e (opts\<lparr>go_dryRun := b\<rparr>) spec i byTag = plannedFiles e opts spec i byTag"
  by (simp add: plannedFiles_def)

lemma resolveIntegration_dryRun:
  "resolveIntegration e (opts\<lparr>go_dryRun := b\<rparr>) = resolveIntegration e opts"
  by (simp add: resolveIntegration_def split: option.splits)

lemma runPlan_dryRun: "runPlan e (opts\<lparr>go_dryRun := b\<rparr>) = runPlan e opts"
  by (simp add: runPlan_def plannedFiles_dryRun resolveIntegration_dryRun split: sum.splits)

lemma dryRunPlans_append: "dryRunPlans (xs @ ys) = dryRunPlans xs @ dryRunPlans ys"
  by (simp add: dryRunPlans_def)

lemma generate_load_fails:
  "loadSpec e (go_schema opts) = Inl err \<Longrightarrow> generate e opts w = (Inl err, w)"
  by (simp add: generate_def)

lemma generate_unfold:
  "loadSpec e (go_schema opts) = Inr spec \<Longrightarrow>
   generate e opts w =
     (case plannedFiles e opts spec (resolveIntegration e opts) (groupOpsByTag (sm_ops spec)) of
        Inl err \<Rightarrow> (Inl err, logParsed opts spec w)
      | Inr files \<Rightarrow>
          (case (if go_dryRun opts
                 then (Inr (), logLine (DryRunPlan (map f_path files)) (logParsed opts spec w))
                 else writeFiles e files (logParsed opts spec w)) of
             (Inl err, w2) \<Rightarrow> (Inl err, w2)
           | (Inr u, w2) \<Rightarrow> (Inr (), logSummary opts spec (resolveIntegration e opts) w2)))"
  by (simp add: generate_def Let_def)

lemma logParsed_fs: "w_fs (logParsed opts spec w) = w_fs w"
  by (simp add: logParsed_def logLine_def)

lemma logSummary_fs: "w_fs (logSummary opts spec i w) = w_fs w"
  by (simp add: logSummary_def logLine_def Let_def)

lemma logParsed_plans: "dryRunPlans (w_console (logParsed opts spec w)) = dryRunPlans (w_console w)"
  by (simp add: logParsed_def logLine_def dryRunPlans_def)

lemma logSummary_plans: "dryRunPlans (w_console (logSummary opts spec i w)) = dryRunPlans (w_console w)"
  by (simp add: logSummary_def logLine_def Let_def dryRunPlans_def)

lemma runPlan_cases:
  obtains (load) err where "loadSpec e (go_schema opts) = Inl err" "runPlan e opts = Inl err"
  | (plan) spec where "loadSpec e (go_schema opts) = Inr spec"
      "runPlan e opts = plannedFiles e opts spec (resolveIntegration e opts) (groupOpsByTag (sm_ops spec))"
  by (cases "loadSpec e (go_schema opts)") (simp_all add: runPlan_def)

lemma generate_dry_fs: "w_fs (snd (generate e (opts\<lparr>go_dryRun := True\<rparr>) w)) = w_fs w"
proof (cases "loadSpec e (go_schema opts)")
  case (Inl err)
  then show ?thesis by (simp add: generate_load_fails)
next
  case (Inr spec)
  then have l: "loadSpec e (go_schema (opts\<lparr>go_dryRun := True\<rparr>)) = Inr spec" by simp
  show ?thesis
    unfolding generate_unfold [OF l]
    by (cases "plannedFiles e (opts\<lparr>go_dryRun := True\<rparr>) spec
                (resolveIntegration e (opts\<lparr>go_dryRun := True\<rparr>)) (groupOpsByTag (sm_ops spec))")
       (simp_all add: logParsed_fs logSummary_fs logLine_def)
qed

lemma generate_dry_ok:
  assumes "runPlan e opts = Inr files"
  shows "fst (generate e (opts\<lparr>go_dryRun := True\<rparr>) w) = Inr ()"
    and "dryRunPlans (w_console (snd (generate e (opts\<lparr>go_dryRun := True\<rparr>) w)))
           = dryRunPlans (w_console w) @ [map f_path files]"
proof -
  from assms obtain spec where spec: "loadSpec e (go_schema opts) = Inr spec"
    and plan: "plannedFiles e opts spec (resolveIntegration e opts) (groupOpsByTag (sm_ops spec)) = Inr files"
    by (cases rule: runPlan_cases [of e opts]) simp_all
  from spec have l: "loadSpec e (go_schema (opts\<lparr>go_dryRun := True\<rparr>)) = Inr spec" by simp
  have p: "plannedFiles e (opts\<lparr>go_dryRun := True\<rparr>) spec
      (resolveIntegration e (opts\<lparr>go_dryRun := True\<rparr>)) (groupOpsByTag (sm_ops spec)) = Inr files"
    using plan by (simp add: plannedFiles_dryRun resolveIntegration_dryRun)
  show "fst (generate e (opts\<lparr>go_dryRun := True\<rparr>) w) = Inr ()"
    unfolding generate_unfold [OF l] p by simp
  show "dryRunPlans (w_console (snd (generate e (opts\<lparr>go_dryRun := True\<rparr>) w)))
           = dryRunPlans (w_console w) @ [map f_path files]"
    unfolding generate_unfold [OF l] p
    by (simp add: logSummary_plans) (simp add: logLine_def dryRunPlans_append logParsed_plans, simp add: dryRunPlans_def)
qed

lemma generate_real_ok:
  assumes "runPlan e opts = Inr files"
  shows "\<exists>new. w_fs (snd (generate e (opts\<lparr>go_dryRun := False\<rparr>) w)) = w_fs w @ new
           \<and> prefix (writtenPaths new) (map f_path files)
           \<and> (fst (generate e (opts\<lparr>go_dryRun := False\<rparr>) w) = Inr ()
                \<longrightarrow> writtenPaths new = map f_path files)"
proof -
  from assms obtain spec where spec: "loadSpec e (go_schema opts) = Inr spec"
    and plan: "plannedFiles e opts spec (resolveIntegration e opts) (groupOpsByTag (sm_ops spec)) = Inr files"
    by (cases rule: runPlan_cases [of e opts]) simp_all
  let ?o = "opts\<lparr>go_dryRun := False\<rparr>"
  from spec have l: "loadSpec e (go_schema ?o) = Inr spec" by simp
  have p: "plannedFiles e ?o spec (resolveIntegration e ?o) (groupOpsByTag (sm_ops spec)) = Inr files"
    using plan by (simp add: plannedFiles_dryRun resolveIntegration_dryRun)
  define w1 where "w1 = logParsed ?o spec w"
  have fs1: "w_fs w1 = w_fs w" by (simp add: w1_def logParsed_fs)
  from writeFiles_prefix [of e files w1] obtain new where
    new: "w_fs (snd (writeFiles e files w1)) = w_fs w1 @ new"
      "prefix (writtenPaths new) (map f_path files)"
      "fst (writeFiles e files w1) = Inr () \<longrightarrow> writtenPaths new = map f_path files"
    by blast
  obtain r w2 where wf: "writeFiles e files w1 = (r, w2)" by (cases "writeFiles e files w1")
  have g: "generate e ?o w = (case r of Inl err \<Rightarrow> (Inl err, w2)
             | Inr u \<Rightarrow> (Inr (), logSummary ?o spec (resolveIntegration e ?o) w2))"
    unfolding generate_unfold [OF l] p using wf by (simp add: w1_def)
  have "w_fs (snd (generate e ?o w)) = w_fs w2"
    unfolding g by (cases r) (simp_all add: logSummary_fs)
  moreover have "fst (generate e ?o w) = Inr () \<longrightarrow> r = Inr ()"
    unfolding g by (cases r) simp_all
  ultimately show ?thesis using new wf fs1 by auto
qed

lemma generate_plan_fails:
  assumes "runPlan e opts = Inl err"
  shows "fst (generate e (opts\<lparr>go_dryRun := b\<rparr>) w) = Inl err"
    and "w_fs (snd (generate e (opts\<lparr>go_dryRun := b\<rparr>) w)) = w_fs w"
proof -
  let ?o = "opts\<lparr>go_dryRun := b\<rparr>"
  have "fst (generate e ?o w) = Inl err \<and> w_fs (snd (generate e ?o w)) = w_fs w"
  proof (cases rule: runPlan_cases [of e opts])
    case (load err')
    with assms have "loadSpec e (go_schema ?o) = Inl err" by simp
    then show ?thesis by (simp add: generate_load_fails)
  next
    case (plan spec)
    then have l: "loadSpec e (go_schema ?o) = Inr spec" by simp
    have p: "plannedFiles e ?o spec (resolveIntegration e ?o) (groupOpsByTag (sm_ops spec)) = Inl err"
      using plan assms by (simp add: plannedFiles_dryRun resolveIntegration_dryRun)
    show ?thesis unfolding generate_unfold [OF l] p by (simp add: logParsed_fs)
  qed
  then show "fst (generate e ?o w) = Inl err" "w_fs (snd (generate e ?o w)) = w_fs w" by simp_all
qed


section \<open>Properties of the hooks renderer\<close>

lemma capitalizeFirst_Inl_iff: "capitalizeFirst fn = Inl e \<longleftrightarrow> fn = [] \<and> e = TypeError"
  by (cases fn) (auto simp: capitalizeFirst_def)

lemma renderQueryHook_cases:
  "(cc (op_operationId op) = [] \<and> renderQueryHook cc tag op = Inl TypeError) \<or>
   (cc (op_operationId op) \<noteq> [] \<and> (\<exists>t. renderQueryHook cc tag op = Inr t))"
  by (cases "cc (op_operationId op)") (simp_all add: renderQueryHook_def Let_def capitalizeFirst_def)

lemma renderMutationHook_cases:
  "(cc (op_operationId op) = [] \<and> renderMutationHook cc tag op = Inl TypeError) \<or>
   (cc (op_operationId op) \<noteq> [] \<and> (\<exists>t. renderMutationHook cc tag op = Inr t))"
  by (cases "cc (op_operationId op)") (simp_all add: renderMutationHook_def Let_def capitalizeFirst_def)







lemma renderTagHooks_total:
  assumes "\<forall>op\<in>set ops. cc (op_operationId op) \<noteq> []"
  shows "\<exists>hooks. renderTagHooks cc tag ops = Inr (join ''\<newline>'' hooks) \<and>
           list_all2 (\<lambda>op hook. (if isQuery (op_method op) then renderQueryHook cc tag op
                                   else renderMutationHook cc tag op) = Inr hook) ops hooks"
proof -
  let ?f = "\<lambda>op. if isQuery (op_method op) then renderQueryHook cc tag op
                 else renderMutationHook cc tag op"
  have tot: "\<forall>op\<in>set ops. \<exists>y. ?f op = Inr y"
  proof
    fix op assume "op \<in> set ops"
    with assms have ne: "cc (op_operationId op) \<noteq> []" by blast
    show "\<exists>y. ?f op = Inr y"
    proof (cases "isQuery (op_method op)")
      case True
      with renderQueryHook_cases [of cc op tag] ne show ?thesis by simp
    next
      case False
      with renderMutationHook_cases [of cc op tag] ne show ?thesis by simp
    qed
  qed
  obtain hooks where h: "mapE ?f ops = Inr hooks"
    using mapE_total [where f = ?f and xs = ops, OF tot] by (rule exE)
  then have "list_all2 (\<lambda>op hook. ?f op = Inr hook) ops hooks" by (simp only: mapE_Inr_iff)
  moreover have "renderTagHooks cc tag ops = Inr (join ''\<newline>'' hooks)"
    using h by (simp add: renderTagHooks_def)
  ultimately show ?thesis by blast
qed



lemma renderTagHooks_hook:
  assumes "renderTagHooks cc tag ops = Inr r" and "op \<in> set ops"
  shows "\<exists>t. (if isQuery (op_method op) then renderQueryHook cc tag op
              else renderMutationHook cc tag op) = Inr t \<and> sublist t r"
proof -
  let ?f = "\<lambda>op. if isQuery (op_method op) then renderQueryHook cc tag op
                 else renderMutationHook cc tag op"
  from assms(1) obtain hooks where h: "mapE ?f ops = Inr hooks" and r: "r = join ''\<newline>'' hooks"
    by (cases "mapE ?f ops") (auto simp: renderTagHooks_def)
  from h have a: "list_all2 (\<lambda>op hook. ?f op = Inr hook) ops hooks" by (simp only: mapE_Inr_iff)
  from assms(2) obtain i where i: "i < length ops" "ops ! i = op" by (auto simp: in_set_conv_nth)
  from a i have f: "?f op = Inr (hooks ! i)" and l: "i < length hooks"
    by (auto simp: list_all2_conv_all_nth)
  from l have "hooks ! i \<in> set hooks" by simp
  then have "sublist (hooks ! i) r" unfolding r by (rule sublist_join)
  with f show ?thesis by blast
qed

lemma renderHooksTemplate_hook:
  assumes "renderHooksTemplate cc entries importBase = Inr out"
    and "(tag, ops) \<in> set entries" and "op \<in> set ops"
  shows "\<exists>t. (if isQuery (op_method op) then renderQueryHook cc tag op
              else renderMutationHook cc tag op) = Inr t \<and> sublist t out"
proof -
  let ?F = "\<lambda>(tag, ops). renderTagHooks cc tag ops"
  from assms(1) obtain rendered where m: "mapE ?F entries = Inr rendered"
    and t: "out = buildHooksHeader importBase @ join ''\<newline>'' (filter (\<lambda>t. t \<noteq> []) rendered)"
    by (cases "mapE ?F entries") (auto simp: renderHooksTemplate_def Let_def)
  from m have a: "list_all2 (\<lambda>e r. ?F e = Inr r) entries rendered" by (simp only: mapE_Inr_iff)
  from assms(2) obtain j where j: "j < length entries" "entries ! j = (tag, ops)"
    by (auto simp: in_set_conv_nth)
  from a j have rj: "renderTagHooks cc tag ops = Inr (rendered ! j)" and l: "j < length rendered"
    by (auto simp: list_all2_conv_all_nth)
  from renderTagHooks_hook [OF rj assms(3)] obtain h where
    h: "(if isQuery (op_method op) then renderQueryHook cc tag op
         else renderMutationHook cc tag op) = Inr h" and s: "sublist h (rendered ! j)"
    by blast
  have "sublist h out"
  proof (cases "rendered ! j = []")
    case True
    with s have "h = []" by simp
    then show ?thesis by simp
  next
    case False
    with l have "rendered ! j \<in> set (filter (\<lambda>t. t \<noteq> []) rendered)" by simp
    then have "sublist (rendered ! j) (join ''\<newline>'' (filter (\<lambda>t. t \<noteq> []) rendered))"
      by (rule sublist_join)
    with s have "sublist h (join ''\<newline>'' (filter (\<lambda>t. t \<noteq> []) rendered))"
      by (rule sublist_order.order.trans)
    then show ?thesis unfolding t by (rule sublist_skip)
  qed
  with h show ?thesis by blast
qed


section \<open>Properties of the path interpolation\<close>

lemma not_word_brace: "\<not> isWordChar CHR ''{''" "\<not> isWordChar CHR ''}''"
  by (simp_all add: isWordChar_def isAlnum_def)

lemma takeWhile_append_stop:
  "\<exists>x\<in>set xs. \<not> P x \<Longrightarrow> takeWhile P (xs @ ys) = takeWhile P xs"
  by (induction xs) auto

lemma dropWhile_append_stop:
  "\<exists>x\<in>set xs. \<not> P x \<Longrightarrow> dropWhile P (xs @ ys) = dropWhile P xs @ ys"
  by (induction xs) auto

lemma takeWhile_append_all:
  "\<forall>x\<in>set xs. P x \<Longrightarrow> takeWhile P (xs @ ys) = xs @ takeWhile P ys"
  by (induction xs) auto

lemma dropWhile_append_all:
  "\<forall>x\<in>set xs. P x \<Longrightarrow> dropWhile P (xs @ ys) = dropWhile P ys"
  by (induction xs) auto

lemma matchesAt_D:
  "matchesAt c rest \<Longrightarrow> c = CHR ''{'' \<and> takeWhile isWordChar rest \<noteq> [] \<and>
     (\<exists>after. dropWhile isWordChar rest = CHR ''}'' # after)"
  by (cases "dropWhile isWordChar rest") (auto simp: matchesAt_def)

lemma matchesAt_append:
  "matchesAt c (rest @ CHR ''{'' # tail) \<longleftrightarrow> matchesAt c rest"
proof (cases "\<exists>x\<in>set rest. \<not> isWordChar x")
  case True
  then have "dropWhile isWordChar rest \<noteq> []" by (simp add: dropWhile_eq_Nil_conv)
  then obtain d after where "dropWhile isWordChar rest = d # after"
    by (cases "dropWhile isWordChar rest") auto
  then show ?thesis
    by (simp add: matchesAt_def takeWhile_append_stop [OF True] dropWhile_append_stop [OF True])
next
  case False
  then have all: "\<forall>x\<in>set rest. isWordChar x" by blast
  then have d: "dropWhile isWordChar rest = []" by simp
  have "\<not> matchesAt c rest"
    unfolding matchesAt_def d by simp
  moreover have "\<not> matchesAt c (rest @ CHR ''{'' # tail)"
    unfolding matchesAt_def dropWhile_append_all [OF all] by (simp add: not_word_brace)
  ultimately show ?thesis by simp
qed

lemma replacePlaceholders_no_brace:
  "CHR ''{'' \<notin> set s \<Longrightarrow> replacePlaceholders f s = s"
  by (induction s) (auto simp: matchesAt_def)

lemma replacePlaceholders_here:
  assumes "name \<noteq> []" and "\<forall>c\<in>set name. isWordChar c"
  shows "replacePlaceholders f (CHR ''{'' # name @ CHR ''}'' # post) = f name @ replacePlaceholders f post"
proof -
  have tw: "takeWhile isWordChar (name @ CHR ''}'' # post) = name"
    using assms(2) by (simp add: takeWhile_append_all not_word_brace)
  have dw: "dropWhile isWordChar (name @ CHR ''}'' # post) = CHR ''}'' # post"
    using assms(2) by (simp add: dropWhile_append_all not_word_brace)
  have "matchesAt CHR ''{'' (name @ CHR ''}'' # post)"
    using assms(1) by (simp add: matchesAt_def tw dw)
  then show ?thesis by (simp add: tw dw)
qed

lemma replacePlaceholders_placeholder:
  assumes "name \<noteq> []" and "\<forall>c\<in>set name. isWordChar c"
  shows "replacePlaceholders f (pre @ CHR ''{'' # name @ CHR ''}'' # post)
           = replacePlaceholders f pre @ f name @ replacePlaceholders f post"
proof (induction f pre rule: replacePlaceholders.induct)
  case (1 f)
  show ?case using replacePlaceholders_here [OF assms] by simp
next
  case (2 f c rest)
  let ?X = "CHR ''{'' # name @ CHR ''}'' # post"
  show ?case
  proof (cases "matchesAt c rest")
    case True
    from matchesAt_D [OF True] obtain after where
      dw: "dropWhile isWordChar rest = CHR ''}'' # after" by blast
    then have ex: "\<exists>x\<in>set rest. \<not> isWordChar x"
      using dropWhile_eq_Nil_conv [of isWordChar rest] by auto
    have m: "matchesAt c (rest @ ?X)" using True by (simp add: matchesAt_append)
    have s1: "replacePlaceholders f ((c # rest) @ ?X)
        = f (takeWhile isWordChar (rest @ ?X)) @
          replacePlaceholders f (tl (dropWhile isWordChar (rest @ ?X)))"
      using m by simp
    have s2: "takeWhile isWordChar (rest @ ?X) = takeWhile isWordChar rest"
      by (rule takeWhile_append_stop [OF ex])
    have s3: "tl (dropWhile isWordChar (rest @ ?X)) = after @ ?X"
      by (simp only: dropWhile_append_stop [OF ex] dw append_Cons list.sel)
    have s4: "replacePlaceholders f (after @ ?X)
        = replacePlaceholders f after @ f name @ replacePlaceholders f post"
      using "2.IH"(1) [OF True] dw by simp
    have s5: "replacePlaceholders f (c # rest)
        = f (takeWhile isWordChar rest) @ replacePlaceholders f after"
      using True dw by simp
    show ?thesis unfolding s1 s2 s3 s4 s5 by simp
  next
    case False
    then have m: "\<not> matchesAt c (rest @ ?X)" by (simp add: matchesAt_append)
    then have "replacePlaceholders f ((c # rest) @ ?X) = c # replacePlaceholders f (rest @ ?X)"
      by simp
    with "2.IH"(2) [OF False] False show ?thesis by simp
  qed
qed


lemma buildParamAccessor_query: "buildParamAccessor ''params?.path'' name = ''params?.path?.'' @ name"
proof -
  have "\<not> suffix ''?'' ''params?.path''" "sublist ''?.'' ''params?.path''" by code_simp+
  then show ?thesis by (simp add: buildParamAccessor_def Let_def)
qed

lemma buildParamAccessor_mutation: "buildParamAccessor ''path?'' name = ''path?.'' @ name"
proof -
  have "suffix ''?'' ''path?''" by code_simp
  then show ?thesis by (simp add: buildParamAccessor_def Let_def)
qed

lemma placeholderReplacement_cases:
  "placeholderReplacement pathParams base name
        = (case List.find (\<lambda>p. p_name p = name) pathParams of
             Some p \<Rightarrow> if p_required p then ''${'' @ buildParamAccessor base name @ ''}''
                       else ''${'' @ buildParamAccessor base name @ '' ?? '' @ sq @ sq @ ''}''
           | None \<Rightarrow> ''${'' @ buildParamAccessor base name @ '' ?? '' @ sq @ sq @ ''}'')"
  by (simp add: placeholderReplacement_def Let_def split: option.splits)

lemma sublist_mid3: "sublist (a @ b @ c) (a @ b @ c @ s)"
  using sublist_append_rightI [of "a @ b @ c" s] by simp

lemma queryHookText_requestPath:
  "sublist (''      const requestPath = '' @ rp @ '';\<newline>'') (queryHookText Fn r p k rp m)"
  unfolding queryHookText_def
  by (rule sublist_mid3 | rule sublist_skip)+

lemma mutationHookText_requestPath:
  "sublist (''      const requestPath = '' @ rp @ '';\<newline>'') (mutationHookText Fn r v d rp m b)"
  unfolding mutationHookText_def
  by (rule sublist_mid3 | rule sublist_skip)+

lemma renderQueryHook_requestPath:
  "renderQueryHook cc tag op = Inr t \<Longrightarrow>
     sublist (''      const requestPath = '' @
              buildPathWithParams (op_path op) (op_pathParams op) ''params?.path'' @ '';\<newline>'') t"
  using queryHookText_requestPath
  by (cases "capitalizeFirst (cc (op_operationId op))")
     (auto simp only: renderQueryHook_def Let_def sum.case sum.inject sum.distinct)

lemma renderMutationHook_requestPath:
  "renderMutationHook cc tag op = Inr t \<Longrightarrow>
     sublist (''      const requestPath = '' @
              buildPathWithParams (op_path op) (op_pathParams op) ''path?'' @ '';\<newline>'') t"
  using mutationHookText_requestPath
  by (cases "capitalizeFirst (cc (op_operationId op))")
     (auto simp only: renderMutationHook_def Let_def sum.case sum.inject sum.distinct)

lemma evalTemplate_char: "c \<noteq> CHR ''$'' \<Longrightarrow> evalTemplate lookup (c # s) = c # evalTemplate lookup s"
  by (cases s) simp_all

lemma evalTemplate_literal:
  "CHR ''$'' \<notin> set lit \<Longrightarrow> evalTemplate lookup (lit @ s) = lit @ evalTemplate lookup s"
proof (induction lit)
  case Nil
  show ?case by simp
next
  case (Cons c lit)
  then have "c \<noteq> CHR ''$''" by auto
  from evalTemplate_char [OF this, of lookup "lit @ s"] Cons show ?case by simp
qed

lemma evalTemplate_subst:
  assumes "CHR ''}'' \<notin> set expr"
  shows "evalTemplate lookup (''${'' @ expr @ ''}'' @ rest) = evalExpr lookup expr @ evalTemplate lookup rest"
proof -
  have all: "\<forall>x\<in>set expr. x \<noteq> CHR ''}''" using assms by blast
  have tw: "takeWhile (\<lambda>x. x \<noteq> CHR ''}'') (expr @ CHR ''}'' # rest) = expr"
    using takeWhile_append_all [OF all, of "CHR ''}'' # rest"] by simp
  have dw: "dropWhile (\<lambda>x. x \<noteq> CHR ''}'') (expr @ CHR ''}'' # rest) = CHR ''}'' # rest"
    using dropWhile_append_all [OF all, of "CHR ''}'' # rest"] by simp
  show ?thesis by (simp add: tw dw)
qed

lemma evalExpr_accessor:
  assumes "acc \<noteq> []" and "last acc \<noteq> CHR 0x27"
  shows "evalExpr lookup acc = jsString (lookup acc)"
proof -
  have "\<not> suffix ('' ?? '' @ sq @ sq) acc"
  proof
    assume "suffix ('' ?? '' @ sq @ sq) acc"
    then obtain zs where "acc = zs @ '' ?? '' @ sq @ sq" by (auto simp: suffix_def)
    then have "last acc = CHR 0x27" by simp
    with assms(2) show False by simp
  qed
  then show ?thesis by (simp add: evalExpr_def)
qed

lemma evalExpr_fallback:
  "evalExpr lookup (acc @ '' ?? '' @ sq @ sq)
     = (if lookup acc = Undefined \<or> lookup acc = Null then [] else jsString (lookup acc))"
proof -
  have s: "suffix ('' ?? '' @ sq @ sq) (acc @ '' ?? '' @ sq @ sq)" by (simp add: suffix_def)
  have t: "take (length (acc @ '' ?? '' @ sq @ sq) - 6) (acc @ '' ?? '' @ sq @ sq) = acc" by simp
  show ?thesis unfolding evalExpr_def t using s by (simp add: nullish_def)
qed

lemma placeholderReplacement_query:
  "placeholderReplacement pp ''params?.path'' name
     = ''${params?.path?.'' @ name @
       (if declaredRequired pp name then ''}'' else '' ?? '' @ sq @ sq @ ''}'')"
  by (simp add: placeholderReplacement_cases buildParamAccessor_query declaredRequired_def
        split: option.splits)

lemma placeholderReplacement_mutation:
  "placeholderReplacement pp ''path?'' name
     = ''${path?.'' @ name @
       (if declaredRequired pp name then ''}'' else '' ?? '' @ sq @ sq @ ''}'')"
  by (simp add: placeholderReplacement_cases buildParamAccessor_mutation declaredRequired_def
        split: option.splits)

lemma buildPathWithParams_placeholder:
  assumes "pp \<noteq> []" and "name \<noteq> []" and "\<forall>c\<in>set name. isWordChar c"
  shows "buildPathWithParams (pre @ ''{'' @ name @ ''}'' @ post) pp base
           = bq @ replacePlaceholders (placeholderReplacement pp base) pre
                @ placeholderReplacement pp base name
                @ replacePlaceholders (placeholderReplacement pp base) post @ bq"
  using assms(1) replacePlaceholders_placeholder [OF assms(2,3), of "placeholderReplacement pp base" pre post]
  by (simp add: buildPathWithParams_def Let_def)

lemma evalTemplate_accessor:
  assumes "name \<noteq> []" and "\<forall>c\<in>set name. isWordChar c" and "CHR ''}'' \<notin> set p"
  shows "evalTemplate lookup (''${'' @ (p @ name) @ ''}'' @ rest)
           = jsString (lookup (p @ name)) @ evalTemplate lookup rest"
    and "evalTemplate lookup (''${'' @ (p @ name) @ '' ?? '' @ sq @ sq @ ''}'' @ rest)
           = (if lookup (p @ name) = Undefined \<or> lookup (p @ name) = Null then []
              else jsString (lookup (p @ name))) @ evalTemplate lookup rest"
proof -
  have nb: "CHR ''}'' \<notin> set name" using assms(2) not_word_brace(2) by blast
  have w: "isWordChar (last name)" using assms(1,2) by simp
  have "\<not> isWordChar (CHR 0x27)" by (simp add: isWordChar_def isAlnum_def)
  with w have l: "last (p @ name) \<noteq> CHR 0x27" using assms(1) by auto
  have ne: "p @ name \<noteq> []" using assms(1) by simp
  have b1: "CHR ''}'' \<notin> set (p @ name)" using nb assms(3) by simp
  from evalTemplate_subst [OF b1, of lookup rest] evalExpr_accessor [OF ne l, of lookup]
  show "evalTemplate lookup (''${'' @ (p @ name) @ ''}'' @ rest)
           = jsString (lookup (p @ name)) @ evalTemplate lookup rest"
    by simp
  have b2: "CHR ''}'' \<notin> set ((p @ name) @ '' ?? '' @ sq @ sq)" using nb assms(3) by simp
  from evalTemplate_subst [OF b2, of lookup rest] evalExpr_fallback [of lookup "p @ name"]
  show "evalTemplate lookup (''${'' @ (p @ name) @ '' ?? '' @ sq @ sq @ ''}'' @ rest)
           = (if lookup (p @ name) = Undefined \<or> lookup (p @ name) = Null then []
              else jsString (lookup (p @ name))) @ evalTemplate lookup rest"
    by simp
qed

text \<open>
  C5 (as amended). For an operation that declares at least one path parameter, and a
  placeholder \<open>{name}\<close> of its path template whose name is a non-empty run of word
  characters, whatever stands before and after it: the hook rendered for the operation
  (which exists if the camel-cased operation id is not empty, and is part of the hooks
  file of its tag and of the combined hooks file) computes the request path by a template
  literal in which the placeholder is replaced by a run-time reference to the parameter,
  \<open>${accessor}\<close> if the first declared path parameter of that name is required and
  \<open>${accessor ?? ''}\<close> if it is optional or no parameter of that name is declared. The
  accessor is \<open>params?.path?.name\<close> in a query hook and \<open>path?.name\<close> in a mutation
  hook; text without an opening brace is copied as it is. At run time the first form
  prints the value of the accessor (\<open>undefined\<close> if none is supplied) and the second
  prints the empty string when the value is \<open>undefined\<close> or \<open>null\<close>.
\<close>

theorem C5_placeholder_substitution:
  assumes "op_pathParams op \<noteq> []"
    and "op_path op = pre @ ''{'' @ name @ ''}'' @ post"
    and "name \<noteq> []" and "\<forall>c\<in>set name. isWordChar c"
  shows "(cc (op_operationId op) \<noteq> [] \<longrightarrow>
            (\<exists>t. renderQueryHook cc tag op = Inr t) \<and> (\<exists>t. renderMutationHook cc tag op = Inr t))
    \<and> (\<forall>t. renderQueryHook cc tag op = Inr t \<longrightarrow>
          sublist (''      const requestPath = '' @ bq @
                   replacePlaceholders (placeholderReplacement (op_pathParams op) ''params?.path'') pre @
                   ''${params?.path?.'' @ name @
                   (if declaredRequired (op_pathParams op) name then ''}''
                    else '' ?? '' @ sq @ sq @ ''}'') @
                   replacePlaceholders (placeholderReplacement (op_pathParams op) ''params?.path'') post @
                   bq @ '';\<newline>'') t)
    \<and> (\<forall>t. renderMutationHook cc tag op = Inr t \<longrightarrow>
          sublist (''      const requestPath = '' @ bq @
                   replacePlaceholders (placeholderReplacement (op_pathParams op) ''path?'') pre @
                   ''${path?.'' @ name @
                   (if declaredRequired (op_pathParams op) name then ''}''
                    else '' ?? '' @ sq @ sq @ ''}'') @
                   replacePlaceholders (placeholderReplacement (op_pathParams op) ''path?'') post @
                   bq @ '';\<newline>'') t)
    \<and> (\<forall>text. op \<in> set ops \<and> renderHooksByTag cc tag ops = Inr text \<longrightarrow>
          (\<exists>t. (if isQuery (op_method op) then renderQueryHook cc tag op
                else renderMutationHook cc tag op) = Inr t \<and> sublist t text))
    \<and> (\<forall>text. (tag, ops) \<in> set byTag \<and> op \<in> set ops \<and> renderHooksCombined cc byTag = Inr text \<longrightarrow>
          (\<exists>t. (if isQuery (op_method op) then renderQueryHook cc tag op
                else renderMutationHook cc tag op) = Inr t \<and> sublist t text))
    \<and> (\<forall>s. CHR ''{'' \<notin> set s \<longrightarrow>
          replacePlaceholders (placeholderReplacement (op_pathParams op) ''params?.path'') s = s \<and>
          replacePlaceholders (placeholderReplacement (op_pathParams op) ''path?'') s = s)
    \<and> (\<forall>acc\<in>{''params?.path?.'' @ name, ''path?.'' @ name}.
          evalTemplate lookup (''${'' @ acc @ ''}'' @ rest)
            = jsString (lookup acc) @ evalTemplate lookup rest \<and>
          evalTemplate lookup (''${'' @ acc @ '' ?? '' @ sq @ sq @ ''}'' @ rest)
            = (if lookup acc = Undefined \<or> lookup acc = Null then [] else jsString (lookup acc))
              @ evalTemplate lookup rest)"
proof -
  have 1: "cc (op_operationId op) \<noteq> [] \<longrightarrow>
            (\<exists>t. renderQueryHook cc tag op = Inr t) \<and> (\<exists>t. renderMutationHook cc tag op = Inr t)"
    using renderQueryHook_cases [of cc op tag] renderMutationHook_cases [of cc op tag] by blast
  have 2: "sublist (''      const requestPath = '' @ bq @
                   replacePlaceholders (placeholderReplacement (op_pathParams op) ''params?.path'') pre @
                   ''${params?.path?.'' @ name @
                   (if declaredRequired (op_pathParams op) name then ''}''
                    else '' ?? '' @ sq @ sq @ ''}'') @
                   replacePlaceholders (placeholderReplacement (op_pathParams op) ''params?.path'') post @
                   bq @ '';\<newline>'') t"
    if r: "renderQueryHook cc tag op = Inr t" for t
    using renderQueryHook_requestPath [OF r]
    unfolding assms(2) buildPathWithParams_placeholder [OF assms(1,3,4)] placeholderReplacement_query
    by (simp only: append_assoc)
  have 3: "sublist (''      const requestPath = '' @ bq @
                   replacePlaceholders (placeholderReplacement (op_pathParams op) ''path?'') pre @
                   ''${path?.'' @ name @
                   (if declaredRequired (op_pathParams op) name then ''}''
                    else '' ?? '' @ sq @ sq @ ''}'') @
                   replacePlaceholders (placeholderReplacement (op_pathParams op) ''path?'') post @
                   bq @ '';\<newline>'') t"
    if r: "renderMutationHook cc tag op = Inr t" for t
    using renderMutationHook_requestPath [OF r]
    unfolding assms(2) buildPathWithParams_placeholder [OF assms(1,3,4)] placeholderReplacement_mutation
    by (simp only: append_assoc)
  have 4: "\<exists>t. (if isQuery (op_method op) then renderQueryHook cc tag op
                else renderMutationHook cc tag op) = Inr t \<and> sublist t out"
    if "op \<in> set ops \<and> renderHooksByTag cc tag ops = Inr out" for out
    using that renderHooksTemplate_hook [where cc = cc and entries = "[(tag, ops)]" and tag = tag
        and ops = ops and op = op and out = out and importBase = "''../''"]
    by (simp add: renderHooksByTag_def)
  have 5: "\<exists>t. (if isQuery (op_method op) then renderQueryHook cc tag op
                else renderMutationHook cc tag op) = Inr t \<and> sublist t out"
    if "(tag, ops) \<in> set byTag \<and> op \<in> set ops \<and> renderHooksCombined cc byTag = Inr out" for out
    using that renderHooksTemplate_hook [where cc = cc and entries = byTag and tag = tag
        and ops = ops and op = op and out = out and importBase = "''./''"]
    by (simp add: renderHooksCombined_def)
  have 6: "\<forall>s. CHR ''{'' \<notin> set s \<longrightarrow>
          replacePlaceholders (placeholderReplacement (op_pathParams op) ''params?.path'') s = s \<and>
          replacePlaceholders (placeholderReplacement (op_pathParams op) ''path?'') s = s"
    by (simp add: replacePlaceholders_no_brace)
  have 7: "\<forall>acc\<in>{''params?.path?.'' @ name, ''path?.'' @ name}.
          evalTemplate lookup (''${'' @ acc @ ''}'' @ rest)
            = jsString (lookup acc) @ evalTemplate lookup rest \<and>
          evalTemplate lookup (''${'' @ acc @ '' ?? '' @ sq @ sq @ ''}'' @ rest)
            = (if lookup acc = Undefined \<or> lookup acc = Null then [] else jsString (lookup acc))
              @ evalTemplate lookup rest"
  proof -
    have a: "CHR ''}'' \<notin> set ''params?.path?.''" "CHR ''}'' \<notin> set ''path?.''" by simp_all
    from evalTemplate_accessor [OF assms(3,4) a(1), of lookup rest]
      evalTemplate_accessor [OF assms(3,4) a(2), of lookup rest]
    show ?thesis by (simp only: ball_simps insert_iff empty_iff simp_thms)
  qed
  from 1 2 3 4 5 6 7 show ?thesis by blast
qed

text \<open>An instance: the template \<open>/pets/{petId}\<close> with \<open>petId\<close> declared optional in
  a \<open>get\<close> operation and required in a \<open>delete\<close> operation, and the run-time value
  of the two substitutions when no value is supplied.\<close>

theorem C5_witness:
  "(\<exists>t. renderQueryHook camelCase ''pets''
          (exampleOp ''pets'' ''getPetById'' Get ''/pets/{petId}'' [pathParam ''petId'' False]) = Inr t \<and>
        sublist (''      const requestPath = '' @ bq @ ''/pets/${params?.path?.petId ?? '' @ sq @ sq @ ''}'' @
                 bq @ '';\<newline>'') t)
   \<and> (\<exists>t. renderMutationHook camelCase ''pets''
          (exampleOp ''pets'' ''deletePet'' Delete ''/pets/{petId}'' [pathParam ''petId'' True]) = Inr t \<and>
        sublist (''      const requestPath = '' @ bq @ ''/pets/${path?.petId}'' @ bq @ '';\<newline>'') t)
   \<and> evalTemplate (\<lambda>a. Undefined) (''${params?.path?.petId ?? '' @ sq @ sq @ ''}/toys'') = ''/toys''
   \<and> evalTemplate (\<lambda>a. Undefined) ''${path?.petId}/toys'' = ''undefined/toys''"
proof -
  let ?opt = "exampleOp ''pets'' ''getPetById'' Get ''/pets/{petId}'' [pathParam ''petId'' False]"
  let ?req = "exampleOp ''pets'' ''deletePet'' Delete ''/pets/{petId}'' [pathParam ''petId'' True]"
  have n: "''petId'' \<noteq> []" "\<forall>c\<in>set ''petId''. isWordChar c"
    by (simp_all add: isWordChar_def isAlnum_def)
  have p: "op_pathParams ?opt \<noteq> []" "op_pathParams ?req \<noteq> []" by (simp_all add: exampleOp_def)
  have e: "op_path ?opt = ''/pets/'' @ ''{'' @ ''petId'' @ ''}'' @ []"
    "op_path ?req = ''/pets/'' @ ''{'' @ ''petId'' @ ''}'' @ []"
    by (simp_all add: exampleOp_def)
  have cc: "camelCase ''getPetById'' = ''getPetById''" "camelCase ''deletePet'' = ''deletePet''"
    by code_simp+
  have c: "camelCase (op_operationId ?opt) \<noteq> []" "camelCase (op_operationId ?req) \<noteq> []"
    by (simp_all add: exampleOp_def cc)
  have d: "\<not> declaredRequired (op_pathParams ?opt) ''petId''"
    "declaredRequired (op_pathParams ?req) ''petId''"
    by (simp_all add: declaredRequired_def exampleOp_def pathParam_def)
  have nb: "CHR ''{'' \<notin> set ''/pets/''" "CHR ''{'' \<notin> set []" by simp_all
  have t: "evalTemplate (\<lambda>a. Undefined) ''/toys'' = ''/toys''" by simp
  note A = C5_placeholder_substitution [OF p(1) e(1) n, where cc = camelCase and tag = "''pets''"
      and lookup = "\<lambda>a. Undefined" and rest = "''/toys''"]
  note B = C5_placeholder_substitution [OF p(2) e(2) n, where cc = camelCase and tag = "''pets''"
      and lookup = "\<lambda>a. Undefined" and rest = "''/toys''"]
  from A c(1) obtain tq where tq: "renderQueryHook camelCase ''pets'' ?opt = Inr tq" by blast
  from B c(2) obtain tm where tm: "renderMutationHook camelCase ''pets'' ?req = Inr tm" by blast
  from A nb have ra: "replacePlaceholders (placeholderReplacement (op_pathParams ?opt) ''params?.path'') ''/pets/'' = ''/pets/''"
    "replacePlaceholders (placeholderReplacement (op_pathParams ?opt) ''params?.path'') [] = []"
    by blast+
  from B nb have rb: "replacePlaceholders (placeholderReplacement (op_pathParams ?req) ''path?'') ''/pets/'' = ''/pets/''"
    "replacePlaceholders (placeholderReplacement (op_pathParams ?req) ''path?'') [] = []"
    by blast+
  from A tq have "sublist (''      const requestPath = '' @ bq @
                   replacePlaceholders (placeholderReplacement (op_pathParams ?opt) ''params?.path'') ''/pets/'' @
                   ''${params?.path?.'' @ ''petId'' @
                   (if declaredRequired (op_pathParams ?opt) ''petId'' then ''}''
                    else '' ?? '' @ sq @ sq @ ''}'') @
                   replacePlaceholders (placeholderReplacement (op_pathParams ?opt) ''params?.path'') [] @
                   bq @ '';\<newline>'') tq"
    by blast
  then have 1: "sublist (''      const requestPath = '' @ bq @ ''/pets/${params?.path?.petId ?? '' @ sq @ sq @ ''}'' @
                 bq @ '';\<newline>'') tq"
    unfolding ra using d(1) by simp
  from B tm have "sublist (''      const requestPath = '' @ bq @
                   replacePlaceholders (placeholderReplacement (op_pathParams ?req) ''path?'') ''/pets/'' @
                   ''${path?.'' @ ''petId'' @
                   (if declaredRequired (op_pathParams ?req) ''petId'' then ''}''
                    else '' ?? '' @ sq @ sq @ ''}'') @
                   replacePlaceholders (placeholderReplacement (op_pathParams ?req) ''path?'') [] @
                   bq @ '';\<newline>'') tm"
    by blast
  then have 2: "sublist (''      const requestPath = '' @ bq @ ''/pets/${path?.petId}'' @ bq @ '';\<newline>'') tm"
    unfolding rb using d(2) by simp
  note a7 = A [THEN conjunct2, THEN conjunct2, THEN conjunct2, THEN conjunct2, THEN conjunct2,
      THEN conjunct2]
  have 3: "evalTemplate (\<lambda>a. Undefined) (''${params?.path?.petId ?? '' @ sq @ sq @ ''}/toys'') = ''/toys''"
    using a7 [THEN bspec, of "''params?.path?.'' @ ''petId''"] unfolding t by simp
  have 4: "evalTemplate (\<lambda>a. Undefined) ''${path?.petId}/toys'' = ''undefined/toys''"
    using B [THEN conjunct2, THEN conjunct2, THEN conjunct2, THEN conjunct2, THEN conjunct2,
      THEN conjunct2, THEN bspec, of "''path?.'' @ ''petId''"] unfolding t by simp
  from tq tm 1 2 3 4 show ?thesis by blast
qed

text \<open>Not every placeholder is replaced: with no declared path parameter the template is
  emitted as a quoted string with its placeholders in place, and a placeholder whose
  name has a character that is not a word character is never replaced.\<close>

theorem C5_counterexample:
  "buildPathWithParams ''/pets/{petId}'' [] ''params?.path'' = sq @ ''/pets/{petId}'' @ sq
   \<and> buildPathWithParams ''/users/{user-id}'' [pathParam ''user-id'' True] ''params?.path''
       = bq @ ''/users/{user-id}'' @ bq"
  by code_simp

section \<open>Properties of the invalidation renderer\<close>

lemma invalidateBlock_filter:
  "invalidateBlock cc (t, filter (\<lambda>op. isQuery (op_method op)) ops) = invalidateBlock cc (t, ops)"
  by (simp add: invalidateBlock_def isQuery_def Let_def)

lemma renderInvalidate_only_queries:
  "renderInvalidate cc (map (\<lambda>(t, ops). (t, filter (\<lambda>op. isQuery (op_method op)) ops)) byTag)
     = renderInvalidate cc byTag"
proof -
  have "map (invalidateBlock cc) (map (\<lambda>(t, ops). (t, filter (\<lambda>op. isQuery (op_method op)) ops)) byTag)
      = map (invalidateBlock cc) byTag"
    by (induction byTag) (auto simp: invalidateBlock_filter)
  then show ?thesis by (simp only: renderInvalidate_def)
qed

lemma renderInvalidate_has_block:
  assumes "(tag, ops) \<in> set byTag"
  shows "sublist (invalidateBlock cc (tag, ops)) (renderInvalidate cc byTag)"
proof -
  have "sublist (invalidateBlock cc (tag, ops))
     ((''\<newline>// GENERATED FILE\<newline>import { QueryClient } from '@tanstack/react-query';\<newline>'' @
      ''import { queryKeys } from './queryKeys.js';\<newline>\<newline>'' @
      ''export const invalidate = (qc: QueryClient) => ({\<newline>'') @
     join '',\<newline>'' (map (invalidateBlock cc) byTag) @ ''\<newline>});\<newline>'')"
    by (rule sublist_join_map [OF assms]) simp
  then show ?thesis unfolding renderInvalidate_def by (simp only: append_assoc)
qed

lemma invalidateBlock_has_line:
  assumes "op \<in> set ops" and "isQuery (op_method op)"
  shows "sublist (invalidateLine (cc tag) (cc (op_operationId op))) (invalidateBlock cc (tag, ops))"
proof -
  from assms have "op \<in> set (filter (\<lambda>op. op_method op = Get \<or> op_method op = Head) ops)"
    by (simp add: isQuery_def)
  then have "sublist (invalidateLine (cc tag) (cc (op_operationId op)))
      ((''  '' @ cc tag @ '': {\<newline>'') @
       join '',\<newline>'' (map (\<lambda>op. invalidateLine (cc tag) (cc (op_operationId op)))
                          (filter (\<lambda>op. op_method op = Get \<or> op_method op = Head) ops)) @ ''\<newline>  }'')"
    by (rule sublist_join_map) simp
  then show ?thesis by (simp add: invalidateBlock_def Let_def)
qed

lemma renderInvalidate_has_line:
  assumes "(tag, ops) \<in> set byTag" and "op \<in> set ops" and "isQuery (op_method op)"
  shows "sublist (invalidateLine (cc tag) (cc (op_operationId op))) (renderInvalidate cc byTag)"
  using invalidateBlock_has_line [OF assms(2,3)] renderInvalidate_has_block [OF assms(1)]
  by (rule sublist_order.order.trans)

lemma invalidateBlock_unfold:
  "invalidateBlock cc (tag, ops) =
     ''  '' @ cc tag @ '': {\<newline>'' @
     join '',\<newline>'' (map (\<lambda>op. invalidateLine (cc tag) (cc (op_operationId op)))
                          (filter (\<lambda>op. isQuery (op_method op)) ops)) @
     ''\<newline>  }''"
  by (simp add: invalidateBlock_def isQuery_def Let_def)

text \<open>
  C4 (as amended). The invalidation renderer emits one block per tag, and the block of
  a tag is the mapping from operation name to invalidation function for the \<open>get\<close> and
  \<open>head\<close> operations of that tag, in order: every such operation has its entry, and
  operations with any other method contribute nothing (the output is the same as for the
  grouped model with those operations removed).
\<close>

theorem C4_invalidate_covers_query_operations:
  "renderInvalidate cc (map (\<lambda>(t, ops). (t, filter (\<lambda>op. isQuery (op_method op)) ops)) byTag)
     = renderInvalidate cc byTag
   \<and> (\<forall>tag ops. (tag, ops) \<in> set byTag \<longrightarrow>
         sublist (''  '' @ cc tag @ '': {\<newline>'' @
                  join '',\<newline>'' (map (\<lambda>op. invalidateLine (cc tag) (cc (op_operationId op)))
                                       (filter (\<lambda>op. isQuery (op_method op)) ops)) @
                  ''\<newline>  }'')
           (renderInvalidate cc byTag))
   \<and> (\<forall>tag ops op. (tag, ops) \<in> set byTag \<and> op \<in> set ops \<and> isQuery (op_method op) \<longrightarrow>
         sublist (invalidateLine (cc tag) (cc (op_operationId op))) (renderInvalidate cc byTag))"
  using renderInvalidate_only_queries [of cc byTag]
    renderInvalidate_has_block [of _ _ byTag cc] renderInvalidate_has_line [of _ _ byTag _ cc]
  by (simp only: invalidateBlock_unfold) blast

lemma C4_example_text:
  "renderInvalidate camelCase
     [(''pets'', [exampleOp ''pets'' ''getPetById'' Get ''/pets/{petId}'' [pathParam ''petId'' True],
                  exampleOp ''pets'' ''createPet'' Post ''/pets'' []])]
   = ''\<newline>// GENERATED FILE\<newline>import { QueryClient } from '@tanstack/react-query';\<newline>'' @
     ''import { queryKeys } from './queryKeys.js';\<newline>\<newline>'' @
     ''export const invalidate = (qc: QueryClient) => ({\<newline>'' @
     ''  pets: {\<newline>'' @
     ''    getPetById: (params?: any) => qc.invalidateQueries({ queryKey: queryKeys.pets.getPetById(params) })\<newline>'' @
     ''  }\<newline>'' @
     ''});\<newline>''"
  by code_simp

text \<open>Not every operation of a tag has an entry, as the specification has it: a
  \<open>post\<close> operation gets none, and its name does not occur in the output at all.\<close>

theorem C4_counterexample:
  "\<not> sublist ''createPet''
       (renderInvalidate camelCase
          [(''pets'', [exampleOp ''pets'' ''getPetById'' Get ''/pets/{petId}'' [pathParam ''petId'' True],
                       exampleOp ''pets'' ''createPet'' Post ''/pets'' []])])"
  unfolding C4_example_text by code_simp

text \<open>An instance: a tag with a \<open>get\<close> and a \<open>post\<close> operation.\<close>

theorem C4_witness:
  "sublist ''    getPetById: (params?: any) => qc.invalidateQueries({ queryKey: queryKeys.pets.getPetById(params) })''
     (renderInvalidate camelCase
        [(''pets'', [exampleOp ''pets'' ''getPetById'' Get ''/pets/{petId}'' [pathParam ''petId'' True],
                     exampleOp ''pets'' ''createPet'' Post ''/pets'' []])])"
proof -
  let ?get = "exampleOp ''pets'' ''getPetById'' Get ''/pets/{petId}'' [pathParam ''petId'' True]"
  let ?post = "exampleOp ''pets'' ''createPet'' Post ''/pets'' []"
  have cc: "camelCase ''pets'' = ''pets''" "camelCase ''getPetById'' = ''getPetById''" by code_simp+
  have q: "isQuery (op_method ?get)" "op_operationId ?get = ''getPetById''"
    by (simp_all add: isQuery_def exampleOp_def)
  from C4_invalidate_covers_query_operations [of camelCase "[(''pets'', [?get, ?post])]"]
  have "sublist (invalidateLine (camelCase ''pets'') (camelCase (op_operationId ?get)))
          (renderInvalidate camelCase [(''pets'', [?get, ?post])])"
    using q(1) by simp
  then show ?thesis by (simp add: q(2) cc invalidateLine_def)
qed

section \<open>Properties of the query keys\<close>










section \<open>Properties of the grouping by tag\<close>

lemma map_of_mapSet: "map_of (mapSet m k v) = (map_of m)(k \<mapsto> v)"
  by (induction m k v rule: mapSet.induct) (auto simp: fun_eq_iff)

lemma keys_mapSet:
  "map fst (mapSet m k v) = (if k \<in> fst ` set m then map fst m else map fst m @ [k])"
  by (induction m k v rule: mapSet.induct) (auto simp: image_iff)

lemma distinct_mapSet: "distinct (map fst m) \<Longrightarrow> distinct (map fst (mapSet m k v))"
  by (simp add: keys_mapSet)

lemma groupStep_map_of:
  "map_of (groupStep op byTag) =
     (map_of byTag)(op_tag op \<mapsto> orElse (map_of byTag (op_tag op)) [] @ [op])"
  by (simp add: groupStep_def map_of_mapSet mapGet_def Let_def)

lemma groupStep_keys:
  "map fst (groupStep op byTag) =
     (if op_tag op \<in> fst ` set byTag then map fst byTag else map fst byTag @ [op_tag op])"
  by (simp add: groupStep_def keys_mapSet Let_def)

lemma fold_groupStep_distinct:
  "distinct (map fst acc) \<Longrightarrow> distinct (map fst (fold groupStep ops acc))"
proof (induction ops arbitrary: acc)
  case Nil
  then show ?case by simp
next
  case (Cons op ops)
  have "distinct (map fst (groupStep op acc))"
    using Cons.prems by (simp add: groupStep_keys)
  then show ?case using Cons.IH by simp
qed

lemma fold_groupStep_map_of:
  "map_of (fold groupStep ops acc) t =
     (case map_of acc t of
        None \<Rightarrow> (if t \<in> op_tag ` set ops then Some (filter (\<lambda>op. op_tag op = t) ops) else None)
      | Some l \<Rightarrow> Some (l @ filter (\<lambda>op. op_tag op = t) ops))"
proof (induction ops arbitrary: acc)
  case Nil
  then show ?case by (simp split: option.splits)
next
  case (Cons op ops)
  show ?case
  proof (cases "op_tag op = t")
    case True
    then show ?thesis
      by (simp add: Cons.IH groupStep_map_of orElse_def split: option.splits)
  next
    case False
    then show ?thesis
      by (simp add: Cons.IH groupStep_map_of split: option.splits)
  qed
qed

lemma groupOpsByTag_map_of:
  "map_of (groupOpsByTag ops) t =
     (if t \<in> op_tag ` set ops then Some (filter (\<lambda>op. op_tag op = t) ops) else None)"
  by (simp add: groupOpsByTag_def fold_groupStep_map_of)

lemma groupOpsByTag_distinct: "distinct (map fst (groupOpsByTag ops))"
  by (simp add: groupOpsByTag_def fold_groupStep_distinct)

lemma groupOpsByTag_entry:
  "(t, os) \<in> set (groupOpsByTag ops) \<longleftrightarrow> t \<in> op_tag ` set ops \<and> os = filter (\<lambda>op. op_tag op = t) ops"
proof -
  have "(t, os) \<in> set (groupOpsByTag ops) \<longleftrightarrow> map_of (groupOpsByTag ops) t = Some os"
    using groupOpsByTag_distinct [of ops] by simp
  then show ?thesis by (auto simp: groupOpsByTag_map_of)
qed

lemma groupOpsByTag_member:
  "op \<in> set ops \<Longrightarrow> \<exists>os. (op_tag op, os) \<in> set (groupOpsByTag ops) \<and> op \<in> set os"
  by (simp add: groupOpsByTag_entry)

text \<open>
  C10. The loader gives an operation the first element of its declared tags, whatever
  follows it, and the tag \<open>default\<close> when no tag is declared (no list, or an empty one).
  The grouping has one group per tag that occurs, and the group of a tag holds exactly
  the operations with that tag, in their order: an operation is in the group of its own
  tag and in no other.
\<close>

theorem C10_first_tag_groups:
  "tagOf (opObj\<lparr>ro_tags := Some (t # others)\<rparr>) = t
   \<and> tagOf (opObj\<lparr>ro_tags := Some []\<rparr>) = ''default''
   \<and> tagOf (opObj\<lparr>ro_tags := None\<rparr>) = ''default''
   \<and> op_tag (buildOp cc p item m opObj) = tagOf opObj
   \<and> distinct (map fst (groupOpsByTag ops))
   \<and> ((t', os) \<in> set (groupOpsByTag ops)
        \<longleftrightarrow> t' \<in> op_tag ` set ops \<and> os = filter (\<lambda>op. op_tag op = t') ops)
   \<and> ((\<exists>os. (t', os) \<in> set (groupOpsByTag ops) \<and> op \<in> set os)
        \<longleftrightarrow> op \<in> set ops \<and> op_tag op = t')"
proof -
  have "(\<exists>os. (t', os) \<in> set (groupOpsByTag ops) \<and> op \<in> set os)
        \<longleftrightarrow> op \<in> set ops \<and> op_tag op = t'"
    by (auto simp: groupOpsByTag_entry)
  moreover have "op_tag (buildOp cc p item m opObj) = tagOf opObj"
    by (simp add: buildOp_def Let_def)
  ultimately show ?thesis
    using groupOpsByTag_distinct [of ops] groupOpsByTag_entry [of t' os ops]
    by (simp add: tagOf_def)
qed


section \<open>Operations with an empty name\<close>

lemma stripBraces_empty: "set s \<subseteq> {CHR ''{'', CHR ''}''} \<Longrightarrow> stripBraces s = []"
  by (induction s) (auto simp: stripBraces_def)

lemma renderTagHooks_fails:
  assumes "op \<in> set ops" and "cc (op_operationId op) = []"
  shows "renderTagHooks cc tag ops = Inl TypeError"
proof -
  let ?f = "\<lambda>op. if isQuery (op_method op) then renderQueryHook cc tag op
                 else renderMutationHook cc tag op"
  have f: "?f op = Inl TypeError"
    using renderQueryHook_cases [of cc op tag] renderMutationHook_cases [of cc op tag] assms(2)
    by simp
  from mapE_fails [where f = ?f, OF assms(1) f] obtain e where e: "mapE ?f ops = Inl e" by (rule exE)
  from mapE_Inl_D [where f = ?f, OF e] obtain x where "?f x = Inl e" by (rule bexE)
  then have "e = TypeError"
    using renderQueryHook_cases [of cc x tag] renderMutationHook_cases [of cc x tag]
    by (cases "isQuery (op_method x)") auto
  with e show ?thesis by (simp add: renderTagHooks_def)
qed

lemma renderTagHooks_Inr_nonempty:
  assumes "renderTagHooks cc tag ops = Inr t" and "op \<in> set ops"
  shows "cc (op_operationId op) \<noteq> []"
proof
  assume "cc (op_operationId op) = []"
  from renderTagHooks_fails [where cc = cc and tag = tag, OF assms(2) this] assms(1) show False by simp
qed

lemma renderHooksTemplate_fails:
  assumes "(tag, ops) \<in> set entries" and "op \<in> set ops" and "cc (op_operationId op) = []"
  shows "renderHooksTemplate cc entries importBase = Inl TypeError"
proof -
  let ?f = "\<lambda>(tag, ops). renderTagHooks cc tag ops"
  have f: "?f (tag, ops) = Inl TypeError"
    using renderTagHooks_fails [where cc = cc and tag = tag, OF assms(2,3)] by simp
  from mapE_fails [where f = ?f, OF assms(1) f] obtain e where e: "mapE ?f entries = Inl e" by (rule exE)
  from mapE_Inl_D [where f = ?f, OF e] obtain x where x: "?f x = Inl e" by (rule bexE)
  obtain t os where "x = (t, os)" by (cases x)
  with x have r: "renderTagHooks cc t os = Inl e" by simp
  have "e = TypeError"
  proof (rule ccontr)
    assume ne: "e \<noteq> TypeError"
    have "\<forall>y\<in>set os. cc (op_operationId y) \<noteq> []"
    proof
      fix y assume y: "y \<in> set os"
      show "cc (op_operationId y) \<noteq> []"
      proof
        assume "cc (op_operationId y) = []"
        from renderTagHooks_fails [where cc = cc and tag = t, OF y this] r ne show False by simp
      qed
    qed
    from renderTagHooks_total [where cc = cc and tag = t, OF this] r show False by auto
  qed
  with e show ?thesis by (simp add: renderHooksTemplate_def)
qed

lemma renderTagHooks_Inl_TypeError:
  assumes "renderTagHooks cc tag ops = Inl e"
  shows "e = TypeError"
proof (rule ccontr)
  assume ne: "e \<noteq> TypeError"
  have "\<forall>y\<in>set ops. cc (op_operationId y) \<noteq> []"
  proof
    fix y assume y: "y \<in> set ops"
    show "cc (op_operationId y) \<noteq> []"
    proof
      assume "cc (op_operationId y) = []"
      from renderTagHooks_fails [where cc = cc and tag = tag, OF y this] assms ne show False by simp
    qed
  qed
  from renderTagHooks_total [where cc = cc and tag = tag, OF this] assms show False by auto
qed

lemma renderHooksTemplate_Inl_TypeError:
  assumes "renderHooksTemplate cc entries importBase = Inl e"
  shows "e = TypeError"
proof -
  let ?f = "\<lambda>(tag, ops). renderTagHooks cc tag ops"
  from assms have "mapE ?f entries = Inl e"
    by (cases "mapE ?f entries") (simp_all add: renderHooksTemplate_def)
  from mapE_Inl_D [where f = ?f, OF this] obtain x where x: "?f x = Inl e" by (rule bexE)
  obtain t os where "x = (t, os)" by (cases x)
  with x have "renderTagHooks cc t os = Inl e" by simp
  then show ?thesis by (rule renderTagHooks_Inl_TypeError)
qed

lemma plannedFiles_fails:
  assumes "(tag, ops) \<in> set byTag" and "op \<in> set ops" and "env_camelCase e (op_operationId op) = []"
  shows "plannedFiles e opts spec i byTag = Inl TypeError"
proof (cases "go_groupByTag opts")
  case False
  have "renderHooksCombined (env_camelCase e) byTag = Inl TypeError"
    unfolding renderHooksCombined_def
    by (rule renderHooksTemplate_fails [where cc = "env_camelCase e", OF assms])
  with False show ?thesis by (simp add: plannedFiles_def Let_def)
next
  case True
  let ?f = "\<lambda>(tag, ops).
               case renderHooksByTag (env_camelCase e) tag ops of
                 Inl err \<Rightarrow> Inl err
               | Inr contents \<Rightarrow>
                   Inr \<lparr>f_path = go_outDir opts @ ''/hooks/'' @ tag @ ''.generated.ts'',
                        f_contents = contents\<rparr>"
  have "renderHooksByTag (env_camelCase e) tag ops = Inl TypeError"
    unfolding renderHooksByTag_def
    by (rule renderHooksTemplate_fails [where cc = "env_camelCase e" and tag = tag and ops = ops and op = op])
       (simp_all add: assms)
  then have f: "?f (tag, ops) = Inl TypeError" by simp
  from mapE_fails [where f = ?f, OF assms(1) f] obtain e' where e': "mapE ?f byTag = Inl e'" by (rule exE)
  from mapE_Inl_D [where f = ?f, OF e'] obtain x where x: "?f x = Inl e'" by (rule bexE)
  obtain t os where xe: "x = (t, os)" by (cases x)
  have "renderHooksByTag (env_camelCase e) t os = Inl e'"
    using x xe by (cases "renderHooksByTag (env_camelCase e) t os") simp_all
  then have "e' = TypeError"
    unfolding renderHooksByTag_def by (rule renderHooksTemplate_Inl_TypeError)
  with e' True show ?thesis by (simp add: plannedFiles_def Let_def)
qed

lemma buildOp_in_extractOps:
  assumes "(p, Some item) \<in> set (orElse (doc_paths api) [])" and "pi_operation item m = Some opObj"
  shows "buildOp cc p item m opObj \<in> set (extractOps cc api)"
proof -
  have "buildOp cc p item m opObj \<in> set (pathItemOps cc p item)"
    using assms(2) by (cases m) (simp_all add: pathItemOps_def)
  with assms(1) show ?thesis
    by (auto simp: extractOps_def intro!: bexI [of _ "(p, Some item)"])
qed

lemma generate_fails_on_empty_name:
  assumes "loadSpec e (go_schema opts) = Inr spec" and "op \<in> set (sm_ops spec)"
    and "env_camelCase e (op_operationId op) = []"
  shows "generate e opts w = (Inl TypeError, logParsed opts spec w)"
proof -
  from groupOpsByTag_member [OF assms(2)] obtain os where
    "(op_tag op, os) \<in> set (groupOpsByTag (sm_ops spec))" "op \<in> set os" by blast
  from plannedFiles_fails [OF this assms(3)]
  have "plannedFiles e opts spec (resolveIntegration e opts) (groupOpsByTag (sm_ops spec)) = Inl TypeError" .
  then show ?thesis by (simp add: generate_unfold [OF assms(1)])
qed

text \<open>
  C9. An operation whose declared id consists of brace characters only is loaded with
  the empty string as its operation id, and (the case conversion mapping the empty
  string to itself) rendering the hooks of any tag that holds it throws a
  \<open>TypeError\<close>; a run on such a document fails with that error before any file-system
  call. Rendering the hooks of a tag returns only if no operation of the tag has the empty
  operation id.
\<close>

theorem C9_brace_only_operationId_throws:
  assumes "env_camelCase e [] = []"
    and "env_bundle e (go_schema opts) = Inr api"
    and "(p, Some item) \<in> set (orElse (doc_paths api) [])"
    and "pi_operation item m = Some opObj"
    and "ro_operationId opObj = Some declared"
    and "set declared \<subseteq> {CHR ''{'', CHR ''}''}"
  shows "op_operationId (buildOp (env_camelCase e) p item m opObj) = []
    \<and> (\<forall>tag ops. buildOp (env_camelCase e) p item m opObj \<in> set ops \<longrightarrow>
          renderTagHooks (env_camelCase e) tag ops = Inl TypeError
          \<and> renderHooksByTag (env_camelCase e) tag ops = Inl TypeError)
    \<and> fst (generate e opts w) = Inl TypeError
    \<and> w_fs (snd (generate e opts w)) = w_fs w
    \<and> (\<forall>tag ops t op. renderTagHooks (env_camelCase e) tag ops = Inr t \<and> op \<in> set ops \<longrightarrow>
          op_operationId op \<noteq> [])"
proof -
  let ?cc = "env_camelCase e"
  let ?op = "buildOp ?cc p item m opObj"
  have id: "op_operationId ?op = []"
    using assms(5) stripBraces_empty [OF assms(6)]
    by (simp add: buildOp_def Let_def operationIdOf_def orElse_def)
  then have cc: "?cc (op_operationId ?op) = []" using assms(1) by simp
  have r: "\<forall>tag ops. ?op \<in> set ops \<longrightarrow>
          renderTagHooks ?cc tag ops = Inl TypeError \<and> renderHooksByTag ?cc tag ops = Inl TypeError"
  proof (intro allI impI conjI)
    fix tag ops assume m: "?op \<in> set ops"
    show "renderTagHooks ?cc tag ops = Inl TypeError"
      by (rule renderTagHooks_fails [where cc = ?cc, OF m cc])
    show "renderHooksByTag ?cc tag ops = Inl TypeError"
      unfolding renderHooksByTag_def
      by (rule renderHooksTemplate_fails [where cc = ?cc and tag = tag and ops = ops and op = ?op])
         (simp_all add: m cc)
  qed
  have l: "loadSpec e (go_schema opts) = Inr (toSpecModel ?cc api)"
    using assms(2) by (simp add: loadSpec_def)
  have "?op \<in> set (sm_ops (toSpecModel ?cc api))"
    using buildOp_in_extractOps [OF assms(3,4)] by (simp add: toSpecModel_def)
  from generate_fails_on_empty_name [OF l this cc]
  have g: "generate e opts w = (Inl TypeError, logParsed opts (toSpecModel ?cc api) w)" .
  have t: "\<forall>tag ops t op. renderTagHooks ?cc tag ops = Inr t \<and> op \<in> set ops \<longrightarrow> op_operationId op \<noteq> []"
  proof (intro allI impI)
    fix tag ops t op assume a: "renderTagHooks ?cc tag ops = Inr t \<and> op \<in> set ops"
    then have "?cc (op_operationId op) \<noteq> []"
      using renderTagHooks_Inr_nonempty [where cc = ?cc and tag = tag and ops = ops and t = t and op = op]
      by blast
    with assms(1) show "op_operationId op \<noteq> []" by auto
  qed
  show ?thesis using id r g t by (simp add: logParsed_fs)
qed


text \<open>An instance: the document whose only operation declares the id \<open>{}\<close>.\<close>

theorem C9_witness:
  "op_operationId (buildOp camelCase ''/pets'' bracePathItem Get
       (rawOperation (Some [''pets'']) (Some ''{}'') [])) = []
   \<and> fst (generate exampleEnv (exampleOptions\<lparr>go_schema := ''braces.yaml''\<rparr>) emptyWorld) = Inl TypeError
   \<and> w_fs (snd (generate exampleEnv (exampleOptions\<lparr>go_schema := ''braces.yaml''\<rparr>) emptyWorld)) = []"
proof -
  have h1: "env_camelCase exampleEnv [] = []"
    by (simp add: exampleEnv_def camelCase_def splitWords_def)
  have h2: "env_bundle exampleEnv (go_schema (exampleOptions\<lparr>go_schema := ''braces.yaml''\<rparr>)) = Inr braceDocument"
    by (simp add: exampleEnv_def)
  have h3: "(''/pets'', Some bracePathItem) \<in> set (orElse (doc_paths braceDocument) [])"
    by (simp add: braceDocument_def orElse_def)
  have h4: "pi_operation bracePathItem Get = Some (rawOperation (Some [''pets'']) (Some ''{}'') [])"
    by (simp add: bracePathItem_def)
  have h5: "ro_operationId (rawOperation (Some [''pets'']) (Some ''{}'') []) = Some ''{}''"
    by (simp add: rawOperation_def)
  have h6: "set ''{}'' \<subseteq> {CHR ''{'', CHR ''}''}" by simp
  from C9_brace_only_operationId_throws [OF h1 h2 h3 h4 h5 h6, of emptyWorld]
  show ?thesis by (simp add: exampleEnv_def emptyWorld_def)
qed

lemma renderHooksTemplate_total:
  assumes "\<forall>(tag, ops)\<in>set entries. \<forall>op\<in>set ops. cc (op_operationId op) \<noteq> []"
  shows "\<exists>t. renderHooksTemplate cc entries importBase = Inr t"
proof -
  let ?f = "\<lambda>(tag, ops). renderTagHooks cc tag ops"
  have "\<forall>x\<in>set entries. \<exists>y. ?f x = Inr y"
  proof
    fix x assume x: "x \<in> set entries"
    obtain t os where xe: "x = (t, os)" by (cases x)
    with x assms have "\<forall>op\<in>set os. cc (op_operationId op) \<noteq> []" by blast
    from renderTagHooks_total [where cc = cc and tag = t, OF this] xe
    show "\<exists>y. ?f x = Inr y" by auto
  qed
  from mapE_total [where f = ?f, OF this] obtain r where "mapE ?f entries = Inr r" by (rule exE)
  then show ?thesis by (simp add: renderHooksTemplate_def Let_def)
qed

lemma plannedFiles_ok:
  assumes "\<forall>(tag, ops)\<in>set byTag. \<forall>op\<in>set ops. env_camelCase e (op_operationId op) \<noteq> []"
  shows "\<exists>files. plannedFiles e opts spec i byTag = Inr files \<and>
           map f_path files = plannedPaths opts byTag i"
proof (cases "go_groupByTag opts")
  case False
  from renderHooksTemplate_total [OF assms] obtain t where
    "renderHooksCombined (env_camelCase e) byTag = Inr t"
    unfolding renderHooksCombined_def by blast
  with False show ?thesis
    by (cases i) (simp_all add: plannedFiles_def Let_def hookPaths_def plannedPaths_def)
next
  case True
  let ?f = "\<lambda>(tag, ops).
               case renderHooksByTag (env_camelCase e) tag ops of
                 Inl err \<Rightarrow> Inl err
               | Inr contents \<Rightarrow>
                   Inr \<lparr>f_path = go_outDir opts @ ''/hooks/'' @ tag @ ''.generated.ts'',
                        f_contents = contents\<rparr>"
  have step: "\<exists>c. ?f x = Inr \<lparr>f_path = go_outDir opts @ ''/hooks/'' @ fst x @ ''.generated.ts'',
                        f_contents = c\<rparr>" if x: "x \<in> set byTag" for x
  proof -
    obtain t os where xe: "x = (t, os)" by (cases x)
    with x assms have "\<forall>(tag, ops)\<in>set [(t, os)]. \<forall>op\<in>set ops. env_camelCase e (op_operationId op) \<noteq> []"
      by auto
    from renderHooksTemplate_total [OF this] obtain c where
      "renderHooksByTag (env_camelCase e) t os = Inr c"
      unfolding renderHooksByTag_def by blast
    with xe show ?thesis by simp
  qed
  then have "\<forall>x\<in>set byTag. \<exists>y. ?f x = Inr y" by blast
  from mapE_total [where f = ?f, OF this] obtain hs where hs: "mapE ?f byTag = Inr hs" by (rule exE)
  then have la: "list_all2 (\<lambda>x y. ?f x = Inr y) byTag hs" by (simp only: mapE_Inr_iff)
  have "map f_path hs = map (\<lambda>(tag, ops). go_outDir opts @ ''/hooks/'' @ tag @ ''.generated.ts'') byTag"
  proof (rule nth_equalityI)
    show "length (map f_path hs) = length (map (\<lambda>(tag, ops). go_outDir opts @ ''/hooks/'' @ tag @ ''.generated.ts'') byTag)"
      using la by (simp add: list_all2_lengthD)
  next
    fix n assume "n < length (map f_path hs)"
    then have n: "n < length byTag" "n < length hs" using la by (simp_all add: list_all2_lengthD)
    from la n have a: "?f (byTag ! n) = Inr (hs ! n)" by (simp add: list_all2_conv_all_nth)
    from step [of "byTag ! n"] n obtain c where
      b: "?f (byTag ! n) = Inr \<lparr>f_path = go_outDir opts @ ''/hooks/'' @ fst (byTag ! n) @ ''.generated.ts'',
                        f_contents = c\<rparr>" by auto
    from a [symmetric] b have "Inr (hs ! n) = (Inr \<lparr>f_path = go_outDir opts @ ''/hooks/'' @ fst (byTag ! n) @ ''.generated.ts'',
                        f_contents = c\<rparr> :: error + File)" by (rule trans)
    then have "hs ! n = \<lparr>f_path = go_outDir opts @ ''/hooks/'' @ fst (byTag ! n) @ ''.generated.ts'',
                        f_contents = c\<rparr>" by (simp only: sum.inject)
    then have "f_path (hs ! n) = go_outDir opts @ ''/hooks/'' @ fst (byTag ! n) @ ''.generated.ts''"
      by simp
    then show "map f_path hs ! n = map (\<lambda>(tag, ops). go_outDir opts @ ''/hooks/'' @ tag @ ''.generated.ts'') byTag ! n"
      using n by (simp add: case_prod_beta)
  qed
  with hs True show ?thesis
    by (cases i) (simp_all add: plannedFiles_def Let_def hookPaths_def plannedPaths_def)
qed

section \<open>Which hook an operation gets\<close>





lemma writeFiles_no_errors:
  assumes "\<forall>tr p. env_mkdir_error e tr p = None" and "\<forall>tr p. env_writeFile_error e tr p = None"
  shows "fst (writeFiles e files w) = Inr ()"
  using assms by (induction files arbitrary: w) (simp_all add: mkdir_def writeFile_def)

lemma generate_real_result:
  assumes "runPlan e opts = Inr files"
  shows "\<exists>w1. fst (generate e (opts\<lparr>go_dryRun := False\<rparr>) w) = fst (writeFiles e files w1)"
proof -
  from assms obtain spec where spec: "loadSpec e (go_schema opts) = Inr spec"
    and plan: "plannedFiles e opts spec (resolveIntegration e opts) (groupOpsByTag (sm_ops spec)) = Inr files"
    by (cases rule: runPlan_cases [of e opts]) simp_all
  let ?o = "opts\<lparr>go_dryRun := False\<rparr>"
  from spec have l: "loadSpec e (go_schema ?o) = Inr spec" by simp
  have p: "plannedFiles e ?o spec (resolveIntegration e ?o) (groupOpsByTag (sm_ops spec)) = Inr files"
    using plan by (simp add: plannedFiles_dryRun resolveIntegration_dryRun)
  obtain r w2 where wf: "writeFiles e files (logParsed ?o spec w) = (r, w2)"
    by (cases "writeFiles e files (logParsed ?o spec w)")
  have "fst (generate e ?o w) = r"
    unfolding generate_unfold [OF l] p using wf by (cases r) simp_all
  with wf show ?thesis by (intro exI [of _ "logParsed ?o spec w"]) simp
qed

lemma runPlan_ok:
  assumes "loadSpec e (go_schema opts) = Inr spec"
    and "\<forall>op\<in>set (sm_ops spec). env_camelCase e (op_operationId op) \<noteq> []"
  shows "\<exists>files. runPlan e opts = Inr files \<and>
           map f_path files = plannedPaths opts (groupOpsByTag (sm_ops spec)) (resolveIntegration e opts)"
proof -
  have "\<forall>(tag, ops)\<in>set (groupOpsByTag (sm_ops spec)). \<forall>op\<in>set ops. env_camelCase e (op_operationId op) \<noteq> []"
    using assms(2) by (auto simp: groupOpsByTag_entry)
  from plannedFiles_ok [OF this] show ?thesis
    using assms(1) by (simp add: runPlan_def)
qed


text \<open>
  C6. The plan of a run does not depend on the dry-run flag. A dry run makes no
  file-system call. When the plan is computed (it is whenever the spec loads and no
  operation has an empty name, and its paths are then the planner's list), the dry run
  succeeds and reports exactly the paths of the plan, in order, and the real run writes
  these paths in this order: all of them if it succeeds, a prefix if a write fails. When
  the plan fails, both runs fail with the same error and neither touches the file system.
\<close>

theorem C6_dry_run_same_paths_no_mutation:
  "runPlan e (opts\<lparr>go_dryRun := True\<rparr>) = runPlan e (opts\<lparr>go_dryRun := False\<rparr>)
   \<and> w_fs (snd (generate e (opts\<lparr>go_dryRun := True\<rparr>) w)) = w_fs w
   \<and> (\<forall>files. runPlan e opts = Inr files \<longrightarrow>
         fst (generate e (opts\<lparr>go_dryRun := True\<rparr>) w) = Inr ()
         \<and> dryRunPlans (w_console (snd (generate e (opts\<lparr>go_dryRun := True\<rparr>) w)))
             = dryRunPlans (w_console w) @ [map f_path files]
         \<and> (\<exists>new. w_fs (snd (generate e (opts\<lparr>go_dryRun := False\<rparr>) w)) = w_fs w @ new
               \<and> prefix (writtenPaths new) (map f_path files)
               \<and> (fst (generate e (opts\<lparr>go_dryRun := False\<rparr>) w) = Inr ()
                    \<longrightarrow> writtenPaths new = map f_path files)))
   \<and> (\<forall>err. runPlan e opts = Inl err \<longrightarrow>
         fst (generate e (opts\<lparr>go_dryRun := True\<rparr>) w) = Inl err
         \<and> fst (generate e (opts\<lparr>go_dryRun := False\<rparr>) w) = Inl err
         \<and> w_fs (snd (generate e (opts\<lparr>go_dryRun := False\<rparr>) w)) = w_fs w)
   \<and> (\<forall>spec. loadSpec e (go_schema opts) = Inr spec
          \<and> (\<forall>op\<in>set (sm_ops spec). env_camelCase e (op_operationId op) \<noteq> []) \<longrightarrow>
         (\<exists>files. runPlan e opts = Inr files \<and>
            map f_path files
              = plannedPaths opts (groupOpsByTag (sm_ops spec)) (resolveIntegration e opts)))"
  using runPlan_dryRun [where e = e and opts = opts and b = True]
    runPlan_dryRun [where e = e and opts = opts and b = False]
    generate_dry_fs [where e = e and opts = opts and w = w]
    generate_dry_ok [where e = e and opts = opts and w = w]
    generate_real_ok [where e = e and opts = opts and w = w]
    generate_plan_fails [where e = e and opts = opts and w = w]
    runPlan_ok [where e = e and opts = opts]
  by (intro conjI allI impI) simp_all

text \<open>An instance: the pet document, whose two operations fall under the tags
  \<open>Pets\<close> and \<open>default\<close>, in an environment where every write succeeds.\<close>

lemma example_ops:
  "map (\<lambda>op. (op_tag op, op_operationId op)) (extractOps camelCase petDocument)
     = [(''Pets'', ''getPetById''), (''default'', ''deletePetsPetId'')]"
  by code_simp

lemma example_names:
  "\<forall>op\<in>set (extractOps camelCase petDocument). camelCase (op_operationId op) \<noteq> []"
proof
  fix op assume "op \<in> set (extractOps camelCase petDocument)"
  then have "(op_tag op, op_operationId op)
      \<in> set (map (\<lambda>op. (op_tag op, op_operationId op)) (extractOps camelCase petDocument))"
    by simp
  then have "op_operationId op = ''getPetById'' \<or> op_operationId op = ''deletePetsPetId''"
    unfolding example_ops by auto
  moreover have "camelCase ''getPetById'' \<noteq> []" "camelCase ''deletePetsPetId'' \<noteq> []" by code_simp+
  ultimately show "camelCase (op_operationId op) \<noteq> []" by auto
qed

lemma example_tags:
  "map fst (groupOpsByTag (extractOps camelCase petDocument)) = [''Pets'', ''default'']"
  by code_simp

lemma example_paths:
  "plannedPaths exampleOptions (groupOpsByTag (extractOps camelCase petDocument)) None
     = [''out/client.ts'', ''out/queryKeys.ts'', ''out/invalidate.ts'',
        ''out/hooks/Pets.generated.ts'', ''out/hooks/default.generated.ts'']"
proof -
  have "map (\<lambda>(tag, ops). ''out/hooks/'' @ tag @ ''.generated.ts'')
          (groupOpsByTag (extractOps camelCase petDocument))
        = map (\<lambda>tag. ''out/hooks/'' @ tag @ ''.generated.ts'')
            (map fst (groupOpsByTag (extractOps camelCase petDocument)))"
    by (simp add: case_prod_beta)
  then show ?thesis
    by (simp add: plannedPaths_def hookPaths_def exampleOptions_def example_tags)
qed

theorem C6_witness:
  "w_fs (snd (generate exampleEnv (exampleOptions\<lparr>go_dryRun := True\<rparr>) emptyWorld)) = []
   \<and> dryRunPlans (w_console (snd (generate exampleEnv (exampleOptions\<lparr>go_dryRun := True\<rparr>) emptyWorld)))
       = [[''out/client.ts'', ''out/queryKeys.ts'', ''out/invalidate.ts'',
           ''out/hooks/Pets.generated.ts'', ''out/hooks/default.generated.ts'']]
   \<and> writtenPaths (w_fs (snd (generate exampleEnv (exampleOptions\<lparr>go_dryRun := False\<rparr>) emptyWorld)))
       = [''out/client.ts'', ''out/queryKeys.ts'', ''out/invalidate.ts'',
           ''out/hooks/Pets.generated.ts'', ''out/hooks/default.generated.ts'']"
proof -
  let ?paths = "[''out/client.ts'', ''out/queryKeys.ts'', ''out/invalidate.ts'',
           ''out/hooks/Pets.generated.ts'', ''out/hooks/default.generated.ts'']"
  note C6 = C6_dry_run_same_paths_no_mutation [of exampleEnv exampleOptions emptyWorld]
  have l: "loadSpec exampleEnv (go_schema exampleOptions) = Inr (toSpecModel camelCase petDocument)"
    by (simp add: loadSpec_def exampleEnv_def exampleOptions_def)
  have n: "\<forall>op\<in>set (sm_ops (toSpecModel camelCase petDocument)).
             env_camelCase exampleEnv (op_operationId op) \<noteq> []"
    using example_names by (simp add: toSpecModel_def exampleEnv_def)
  have i: "resolveIntegration exampleEnv exampleOptions = None"
    by (simp add: resolveIntegration_def exampleOptions_def)
  from C6 l n obtain files where
    files: "runPlan exampleEnv exampleOptions = Inr files"
      "map f_path files = plannedPaths exampleOptions
         (groupOpsByTag (sm_ops (toSpecModel camelCase petDocument)))
         (resolveIntegration exampleEnv exampleOptions)"
    by blast
  then have paths: "map f_path files = ?paths"
    by (simp add: i toSpecModel_def example_paths)
  have ew: "w_fs emptyWorld = []" "w_console emptyWorld = []" by (simp_all add: emptyWorld_def)
  have ok: "fst (generate exampleEnv (exampleOptions\<lparr>go_dryRun := False\<rparr>) emptyWorld) = Inr ()"
    using generate_real_result [OF files(1), of emptyWorld]
      writeFiles_no_errors [of exampleEnv files]
    by (auto simp: exampleEnv_def)
  from C6 files(1) have
    d: "dryRunPlans (w_console (snd (generate exampleEnv (exampleOptions\<lparr>go_dryRun := True\<rparr>) emptyWorld)))
             = dryRunPlans (w_console emptyWorld) @ [map f_path files]"
    and r: "\<exists>new. w_fs (snd (generate exampleEnv (exampleOptions\<lparr>go_dryRun := False\<rparr>) emptyWorld))
                = w_fs emptyWorld @ new
               \<and> (fst (generate exampleEnv (exampleOptions\<lparr>go_dryRun := False\<rparr>) emptyWorld) = Inr ()
                    \<longrightarrow> writtenPaths new = map f_path files)"
    and f: "w_fs (snd (generate exampleEnv (exampleOptions\<lparr>go_dryRun := True\<rparr>) emptyWorld)) = w_fs emptyWorld"
    by blast+
  from r ok ew paths have "writtenPaths (w_fs (snd (generate exampleEnv (exampleOptions\<lparr>go_dryRun := False\<rparr>) emptyWorld))) = ?paths"
    by auto
  with d f ew paths show ?thesis by (simp add: dryRunPlans_def)
qed

lemma loadSpec_fails_iff: "loadSpec e s = Inl err \<longleftrightarrow> env_bundle e s = Inl err"
  by (cases "env_bundle e s") (simp_all add: loadSpec_def)

text \<open>
  C7. If loading the spec fails (the bundler fails: unreachable source, unparsable
  document, unresolvable reference), \<open>generate\<close> fails with that error and leaves the
  state as it was: no file-system call and no print. The command line then prints the
  error and exits with status 1, still without any file-system call.
\<close>

theorem C7_load_failure_aborts:
  assumes "loadSpec e (go_schema opts) = Inl err" and "c_schema copts = go_schema opts"
  shows "env_bundle e (go_schema opts) = Inl err
    \<and> generate e opts w = (Inl err, w)
    \<and> fst (cli e copts w) = 1
    \<and> w_fs (snd (cli e copts w)) = w_fs w
    \<and> w_console (snd (cli e copts w)) = w_console w @ [ErrorMessage err]"
proof -
  let ?o = "\<lparr>go_schema = c_schema copts,
              go_outDir = c_out copts,
              go_baseUrl = c_baseUrl copts,
              go_groupByTag = c_groupByTag copts,
              go_openApiTsConfig = (case c_openapiTsConfig copts of
                                      None \<Rightarrow> None
                                    | Some p \<Rightarrow> if p \<noteq> [] then Some p else None),
              go_generateTypes = orElse (c_generateTypes copts) False,
              go_verbose = False,
              go_dryRun = False\<rparr>"
  have "loadSpec e (go_schema ?o) = Inl err" using assms by simp
  then have "generate e ?o w = (Inl err, w)" by (rule generate_load_fails)
  then have "cli e copts w = (1, logLine (ErrorMessage err) w)" by (simp add: cli_def)
  then show ?thesis
    using generate_load_fails [OF assms(1), of w] assms(1)
    by (simp add: logLine_def loadSpec_fails_iff)
qed

text \<open>An instance: a source that cannot be reached.\<close>

theorem C7_witness:
  "generate exampleEnv (exampleOptions\<lparr>go_schema := ''nowhere.yaml''\<rparr>) emptyWorld
     = (Inl (Failure ''ENOENT''), emptyWorld)
   \<and> cli exampleEnv exampleCliOpts emptyWorld
     = (1, \<lparr>w_fs = [], w_console = [ErrorMessage (Failure ''ENOENT'')]\<rparr>)"
proof -
  have l: "loadSpec exampleEnv (go_schema (exampleOptions\<lparr>go_schema := ''nowhere.yaml''\<rparr>))
      = Inl (Failure ''ENOENT'')"
    by (simp add: loadSpec_def exampleEnv_def)
  have c: "c_schema exampleCliOpts = go_schema (exampleOptions\<lparr>go_schema := ''nowhere.yaml''\<rparr>)"
    by (simp add: exampleCliOpts_def)
  from C7_load_failure_aborts [OF l c, of emptyWorld] show ?thesis
    by (simp add: emptyWorld_def prod_eq_iff World.equality)
qed

lemma readOpenApiTsConfig_fails:
  assumes "(\<exists>err. env_readFileSync e p = Inl err) \<or>
           (\<exists>text err. env_readFileSync e p = Inr text \<and> env_JSON_parse e text = Inl err)"
  shows "\<exists>err. readOpenApiTsConfig e p = Inl err"
  using assms by (auto simp: readOpenApiTsConfig_def)

lemma plannedFiles_config:
  "plannedFiles e (opts\<lparr>go_openApiTsConfig := c\<rparr>) spec i byTag = plannedFiles e opts spec i byTag"
  by (simp add: plannedFiles_def)

lemma generate_config_irrelevant:
  assumes "resolveIntegration e (opts\<lparr>go_openApiTsConfig := c\<rparr>) = resolveIntegration e opts"
  shows "generate e (opts\<lparr>go_openApiTsConfig := c\<rparr>) w = generate e opts w"
proof (cases "loadSpec e (go_schema opts)")
  case (Inl err)
  then show ?thesis by (simp add: generate_load_fails)
next
  case (Inr spec)
  then have l: "loadSpec e (go_schema (opts\<lparr>go_openApiTsConfig := c\<rparr>)) = Inr spec" by simp
  have lp: "logParsed (opts\<lparr>go_openApiTsConfig := c\<rparr>) spec w = logParsed opts spec w"
    by (simp add: logParsed_def)
  have ls: "logSummary (opts\<lparr>go_openApiTsConfig := c\<rparr>) spec i w' = logSummary opts spec i w'" for i w'
    by (simp add: logSummary_def Let_def)
  have dr: "go_dryRun (opts\<lparr>go_openApiTsConfig := c\<rparr>) = go_dryRun opts" by simp
  show ?thesis
    unfolding generate_unfold [OF l] generate_unfold [OF Inr] assms plannedFiles_config lp ls dr
    by (rule refl)
qed

text \<open>
  C8 (as amended). If the descriptor file cannot be read (it is missing or unreadable) or
  its text is not JSON, loading it gives the disabled state and no error, and the run
  goes on exactly as the run without a descriptor path does: same result, same
  file-system calls, same prints. Nothing is printed about the failure.
\<close>

theorem C8_descriptor_failure_disables:
  assumes "go_openApiTsConfig opts = Some p"
    and "(\<exists>err. env_readFileSync e p = Inl err) \<or>
         (\<exists>text err. env_readFileSync e p = Inr text \<and> env_JSON_parse e text = Inl err)"
  shows "loadOpenApiTsConfig e (Some p) = None
    \<and> resolveIntegration e opts = None
    \<and> generate e opts w = generate e (opts\<lparr>go_openApiTsConfig := None\<rparr>) w"
proof -
  from readOpenApiTsConfig_fails [OF assms(2)] obtain err where
    "readOpenApiTsConfig e p = Inl err" by blast
  then have l: "loadOpenApiTsConfig e (Some p) = None" by (simp add: loadOpenApiTsConfig_def)
  then have r: "resolveIntegration e opts = None"
    using assms(1) by (simp add: resolveIntegration_def)
  have "resolveIntegration e (opts\<lparr>go_openApiTsConfig := None\<rparr>) = resolveIntegration e opts"
    using r by (simp add: resolveIntegration_def)
  from generate_config_irrelevant [OF this] l r show ?thesis by simp
qed

text \<open>An instance: a descriptor path that cannot be read.\<close>

theorem C8_witness:
  "loadOpenApiTsConfig exampleEnv (Some ''missing.json'') = None
   \<and> generate exampleEnv (exampleOptions\<lparr>go_openApiTsConfig := Some ''missing.json''\<rparr>) emptyWorld
     = generate exampleEnv (exampleOptions\<lparr>go_openApiTsConfig := None\<rparr>) emptyWorld"
proof -
  have a: "go_openApiTsConfig (exampleOptions\<lparr>go_openApiTsConfig := Some ''missing.json''\<rparr>)
      = Some ''missing.json''" by simp
  have b: "(\<exists>err. env_readFileSync exampleEnv ''missing.json'' = Inl err) \<or>
         (\<exists>text err. env_readFileSync exampleEnv ''missing.json'' = Inr text
            \<and> env_JSON_parse exampleEnv text = Inl err)"
    by (simp add: exampleEnv_def)
  from C8_descriptor_failure_disables [OF a b, of emptyWorld] show ?thesis by simp
qed

lemma generate_real_console:
  assumes "loadSpec e (go_schema opts) = Inr spec"
    and "plannedFiles e opts spec (resolveIntegration e opts) (groupOpsByTag (sm_ops spec)) = Inr files"
    and "\<not> go_dryRun opts"
    and "fst (writeFiles e files (logParsed opts spec w)) = Inr ()"
  shows "w_console (snd (generate e opts w))
     = w_console (logSummary opts spec (resolveIntegration e opts) (logParsed opts spec w))"
proof -
  obtain w2 where wf: "writeFiles e files (logParsed opts spec w) = (Inr (), w2)"
    using assms(4) by (cases "writeFiles e files (logParsed opts spec w)") auto
  then have c: "w_console w2 = w_console (logParsed opts spec w)"
    using writeFiles_console [of e files "logParsed opts spec w"] by simp
  have "generate e opts w = (Inr (), logSummary opts spec (resolveIntegration e opts) w2)"
    unfolding generate_unfold [OF assms(1)] assms(2) using assms(3) wf by simp
  then show ?thesis using c by (simp add: logSummary_def logLine_def Let_def)
qed

text \<open>The failure is not logged, as the specification has it in one place: with a
  descriptor path that cannot be read, a run prints its summary line and nothing else.\<close>

theorem C8_counterexample:
  "w_console (snd (generate exampleEnv
      (exampleOptions\<lparr>go_openApiTsConfig := Some ''missing.json''\<rparr>) emptyWorld))
     = [Summary False 2 ''out'']"
proof -
  let ?o = "exampleOptions\<lparr>go_openApiTsConfig := Some ''missing.json''\<rparr>"
  let ?spec = "toSpecModel camelCase petDocument"
  have l: "loadSpec exampleEnv (go_schema ?o) = Inr ?spec"
    by (simp add: loadSpec_def exampleEnv_def exampleOptions_def)
  have n: "\<forall>(tag, ops)\<in>set (groupOpsByTag (sm_ops ?spec)). \<forall>op\<in>set ops.
             env_camelCase exampleEnv (op_operationId op) \<noteq> []"
    using example_names by (auto simp: toSpecModel_def exampleEnv_def groupOpsByTag_entry)
  from plannedFiles_ok [OF n, of ?o ?spec "resolveIntegration exampleEnv ?o"] obtain files where
    p: "plannedFiles exampleEnv ?o ?spec (resolveIntegration exampleEnv ?o)
          (groupOpsByTag (sm_ops ?spec)) = Inr files" by blast
  have d: "\<not> go_dryRun ?o" by (simp add: exampleOptions_def)
  have ok: "fst (writeFiles exampleEnv files (logParsed ?o ?spec emptyWorld)) = Inr ()"
    by (rule writeFiles_no_errors) (simp_all add: exampleEnv_def)
  have i: "resolveIntegration exampleEnv ?o = None"
    by (simp add: resolveIntegration_def loadOpenApiTsConfig_def readOpenApiTsConfig_def
        exampleEnv_def)
  have len: "length (sm_ops ?spec) = 2"
    using arg_cong [OF example_ops, of length] by (simp add: toSpecModel_def)
  from generate_real_console [OF l p d ok]
  have "w_console (snd (generate exampleEnv ?o emptyWorld))
      = w_console (logSummary ?o ?spec None (logParsed ?o ?spec emptyWorld))"
    by (simp only: i)
  then show ?thesis
    by (simp add: logSummary_def logParsed_def logLine_def Let_def exampleOptions_def
        emptyWorld_def len)
qed

end
